theory Spec2Isabelle
  imports Complex_Main "HOL-Library.Word"
begin

section \<open>The acoustic codec of Harmonious\<close>

text \<open>
  The repository holds the codec twice: the slow "whale" module
  \<^verbatim>\<open>src/utils/audioCodec.ts\<close> and the fast module that follows the serial service in
  \<^verbatim>\<open>src/utils/arduinoService.ts\<close>. The two modules have the same functions and differ in
  their constants, in two literals of the decoder (the width of the recent-character window
  and the transmission timeout), in the envelope of the marker tones and in the pause
  bookkeeping, which only the whale module has. The embedding is written once over a record
  of these constants; \<open>whale\<close> and \<open>fast\<close> are the two modules.

  Numbers: frequencies, gains and audio-clock times are JavaScript numbers and are modelled
  as rationals (exact arithmetic, no rounding); \<^verbatim>\<open>Date.now()\<close> is an integer number of
  milliseconds; a \<^verbatim>\<open>Uint8Array\<close> is a list of 8-bit words. Every clock reading is an
  argument of the function that takes it. Console output is not modelled.
\<close>

subsection \<open>Constants\<close>

datatype gain_event =
    SetValueAtTime rat rat
  | LinearRampToValueAtTime rat rat
  | ExponentialRampToValueAtTime rat rat

record codec =
  START_FREQUENCY :: rat
  END_FREQUENCY :: rat
  START_MARKER_DURATION :: rat
  END_MARKER_DURATION :: rat
  CHARACTER_DURATION :: rat
  CHARACTER_GAP :: rat
  VOLUME :: rat
  USE_PARALLEL_TONES :: bool
  PARALLEL_TONE_OFFSET :: rat
  PARALLEL_TONE_VOLUME :: rat
  FREQUENCY_TOLERANCE :: rat
  SIGNAL_THRESHOLD :: nat
  DEBOUNCE_TIME :: int
  CHARACTER_LOCKOUT_TIME :: int
  CHAR_FREQUENCIES :: "(char \<times> rat) list"
  RECENT_WINDOW :: int
  TRANSMISSION_TIMEOUT :: int
  PAUSE_CONTROL :: bool
  playToneEnvelope :: "rat \<Rightarrow> rat \<Rightarrow> rat \<Rightarrow> gain_event list"

definition MINIMUM_VALID_FREQUENCY :: rat where
  "MINIMUM_VALID_FREQUENCY = 400"

definition MAXIMUM_VALID_FREQUENCY :: rat where
  "MAXIMUM_VALID_FREQUENCY = 8300"

text \<open>
  The gain envelope that \<^verbatim>\<open>playTone\<close> sets for a marker: exponential ramps with a fade of
  \<^verbatim>\<open>Math.min(0.1, duration / 3)\<close> in the whale module, linear ramps with a fade of
  \<^verbatim>\<open>Math.min(0.004, duration / 18)\<close> in the fast module.
\<close>

definition playToneEnvelope_whale :: "rat \<Rightarrow> rat \<Rightarrow> rat \<Rightarrow> gain_event list" where
  "playToneEnvelope_whale volume startTime duration =
     (let fadeTime = min (1 / 10) (duration / 3) in
      [SetValueAtTime 0 startTime,
       ExponentialRampToValueAtTime volume (startTime + fadeTime),
       SetValueAtTime volume (startTime + duration - fadeTime),
       ExponentialRampToValueAtTime (1 / 100) (startTime + duration)])"

definition playToneEnvelope_fast :: "rat \<Rightarrow> rat \<Rightarrow> rat \<Rightarrow> gain_event list" where
  "playToneEnvelope_fast volume startTime duration =
     (let fadeTime = min (4 / 1000) (duration / 18) in
      [SetValueAtTime 0 startTime,
       LinearRampToValueAtTime volume (startTime + fadeTime),
       SetValueAtTime volume (startTime + duration - fadeTime),
       LinearRampToValueAtTime 0 (startTime + duration)])"

definition CHAR_FREQUENCIES_whale :: "(char \<times> rat) list" where
  "CHAR_FREQUENCIES_whale =
     [(CHR '' '', 900),
      (CHR ''A'', 500), (CHR ''B'', 600), (CHR ''C'', 700), (CHR ''D'', 1100),
      (CHR ''E'', 1200), (CHR ''F'', 1300), (CHR ''G'', 1400), (CHR ''H'', 1500),
      (CHR ''I'', 1600), (CHR ''J'', 1700),
      (CHR ''K'', 1800), (CHR ''L'', 1900), (CHR ''M'', 2000), (CHR ''N'', 2100),
      (CHR ''O'', 2200), (CHR ''P'', 2300), (CHR ''Q'', 2400), (CHR ''R'', 2500),
      (CHR ''S'', 2600), (CHR ''T'', 2700),
      (CHR ''U'', 2800), (CHR ''V'', 2900), (CHR ''W'', 3000), (CHR ''X'', 3100),
      (CHR ''Y'', 3200), (CHR ''Z'', 3300), (CHR ''*'', 5000)]"

definition CHAR_FREQUENCIES_fast :: "(char \<times> rat) list" where
  "CHAR_FREQUENCIES_fast =
     [(CHR '' '', 900),
      (CHR ''!'', 1300), (CHR ''@'', 1400), (CHR ''#'', 1500), (CHR ''$'', 1600),
      (CHR ''%'', 1700), (CHR ''^'', 1800), (CHR ''&'', 1900), (CHR ''*'', 2000),
      (CHR ''('', 2100), (CHR '')'', 2200), (CHR ''-'', 2300), (CHR ''_'', 2400),
      (CHR ''+'', 2600), (CHR ''='', 2800), (CHR ''{'', 2900), (CHR ''}'', 3000),
      (CHR ''['', 3100), (CHR '']'', 3200), (CHR ''|'', 3300), (CHR 0x5C, 3400),
      (CHR '':'', 3500), (CHR '';'', 3600), (CHR 0x22, 3700), (CHR 0x27, 3800),
      (CHR ''<'', 3900), (CHR ''>'', 4000), (CHR '','', 4100), (CHR ''.'', 4200),
      (CHR ''/'', 4300), (CHR ''?'', 4400), (CHR 0x60, 4500), (CHR ''~'', 4600),
      (CHR ''0'', 4700), (CHR ''1'', 4800), (CHR ''2'', 4900), (CHR ''3'', 5000),
      (CHR ''4'', 5100), (CHR ''5'', 5200), (CHR ''6'', 5300), (CHR ''7'', 5400),
      (CHR ''8'', 5500), (CHR ''9'', 5600),
      (CHR ''A'', 5700), (CHR ''B'', 5800), (CHR ''C'', 5900), (CHR ''D'', 6000),
      (CHR ''E'', 6100), (CHR ''F'', 6200), (CHR ''G'', 6300), (CHR ''H'', 6400),
      (CHR ''I'', 6500), (CHR ''J'', 6600),
      (CHR ''K'', 6700), (CHR ''L'', 6800), (CHR ''M'', 6900), (CHR ''N'', 7000),
      (CHR ''O'', 7100), (CHR ''P'', 7200), (CHR ''Q'', 7300), (CHR ''R'', 7400),
      (CHR ''S'', 7500), (CHR ''T'', 7600),
      (CHR ''U'', 7700), (CHR ''V'', 7800), (CHR ''W'', 7900), (CHR ''X'', 8000),
      (CHR ''Y'', 8100), (CHR ''Z'', 8200)]"

definition whale :: codec where
  "whale =
     \<lparr>START_FREQUENCY = 1000, END_FREQUENCY = 800,
      START_MARKER_DURATION = 3 / 2, END_MARKER_DURATION = 3 / 2,
      CHARACTER_DURATION = 12 / 10, CHARACTER_GAP = 1 / 2, VOLUME = 85 / 100,
      USE_PARALLEL_TONES = False, PARALLEL_TONE_OFFSET = 75, PARALLEL_TONE_VOLUME = 9 / 10,
      FREQUENCY_TOLERANCE = 45, SIGNAL_THRESHOLD = 135,
      DEBOUNCE_TIME = 350, CHARACTER_LOCKOUT_TIME = 1800,
      CHAR_FREQUENCIES = CHAR_FREQUENCIES_whale,
      RECENT_WINDOW = 2000, TRANSMISSION_TIMEOUT = 50000,
      PAUSE_CONTROL = True, playToneEnvelope = playToneEnvelope_whale\<rparr>"

definition fast :: codec where
  "fast =
     \<lparr>START_FREQUENCY = 2500, END_FREQUENCY = 2700,
      START_MARKER_DURATION = 12 / 100, END_MARKER_DURATION = 12 / 100,
      CHARACTER_DURATION = 7 / 100, CHARACTER_GAP = 3 / 100, VOLUME = 1,
      USE_PARALLEL_TONES = True, PARALLEL_TONE_OFFSET = 35, PARALLEL_TONE_VOLUME = 75 / 100,
      FREQUENCY_TOLERANCE = 45, SIGNAL_THRESHOLD = 135,
      DEBOUNCE_TIME = 75, CHARACTER_LOCKOUT_TIME = 120,
      CHAR_FREQUENCIES = CHAR_FREQUENCIES_fast,
      RECENT_WINDOW = 450, TRANSMISSION_TIMEOUT = 15000,
      PAUSE_CONTROL = False, playToneEnvelope = playToneEnvelope_fast\<rparr>"

subsection \<open>The character map\<close>

text \<open>
  \<^verbatim>\<open>String.prototype.toUpperCase\<close> on one code unit. The model covers the ASCII letters and
  leaves every other code unit as it is: no key of the two tables is outside ASCII.
\<close>

definition toUpperCase :: "char \<Rightarrow> char" where
  "toUpperCase ch =
     (let n = (of_char ch :: nat) in if 97 \<le> n \<and> n \<le> 122 then char_of (n - 32) else ch)"

text \<open>\<^verbatim>\<open>CHAR_FREQUENCIES[upperChar] || 0\<close>: a missing key and a zero entry both give 0.\<close>

definition charToFrequency :: "codec \<Rightarrow> char \<Rightarrow> rat" where
  "charToFrequency c char =
     (let upperChar = toUpperCase char in
      case map_of (CHAR_FREQUENCIES c) upperChar of None \<Rightarrow> 0 | Some f \<Rightarrow> f)"

text \<open>
  \<^verbatim>\<open>Object.entries\<close> lists the keys that are array indices first, in ascending numeric
  order, and then the other keys in the order of the object literal. Among one-character
  keys the array indices are the digits.
\<close>

definition isArrayIndexKey :: "char \<Rightarrow> bool" where
  "isArrayIndexKey k = (48 \<le> (of_char k :: nat) \<and> (of_char k :: nat) \<le> 57)"

definition objectEntries :: "(char \<times> rat) list \<Rightarrow> (char \<times> rat) list" where
  "objectEntries kvs =
     sort_key (\<lambda>e. (of_char (fst e) :: nat)) (filter (\<lambda>e. isArrayIndexKey (fst e)) kvs)
     @ filter (\<lambda>e. \<not> isArrayIndexKey (fst e)) kvs"

fun frequencyToCharLoop :: "rat \<Rightarrow> rat \<Rightarrow> (char \<times> rat) list \<Rightarrow> char option" where
  "frequencyToCharLoop tolerance frequency [] = None"
| "frequencyToCharLoop tolerance frequency ((char, charFreq) # entries) =
     (if \<bar>frequency - charFreq\<bar> < tolerance then Some char
      else frequencyToCharLoop tolerance frequency entries)"

definition frequencyToChar :: "codec \<Rightarrow> rat \<Rightarrow> char option" where
  "frequencyToChar c frequency =
     frequencyToCharLoop (FREQUENCY_TOLERANCE c) frequency (objectEntries (CHAR_FREQUENCIES c))"

subsection \<open>The decoder session\<close>

text \<open>
  The module-level variables of the decoder. \<^verbatim>\<open>charFrequencyCounts\<close> is a map that the
  code only ever clears.
\<close>

record decoder =
  isReceivingMessage :: bool
  messageBuffer :: string
  startMarkerDetectionCount :: nat
  endMarkerDetectionCount :: nat
  lastDetectedFrequency :: rat
  lastDetectedTime :: int
  lastDetectedChar :: string
  transmissionStartTime :: int
  recentCharacters :: "(char \<times> int) list"
  charFrequencyCounts :: "(string \<times> nat) list"

definition initialDecoder :: decoder where
  "initialDecoder =
     \<lparr>isReceivingMessage = False, messageBuffer = [],
      startMarkerDetectionCount = 0, endMarkerDetectionCount = 0,
      lastDetectedFrequency = 0, lastDetectedTime = 0, lastDetectedChar = [],
      transmissionStartTime = 0, recentCharacters = [], charFrequencyCounts = []\<rparr>"

definition resetDecoder :: "decoder \<Rightarrow> decoder" where
  "resetDecoder s =
     s\<lparr>isReceivingMessage := False, messageBuffer := [],
       startMarkerDetectionCount := 0, endMarkerDetectionCount := 0,
       lastDetectedFrequency := 0, lastDetectedTime := 0, lastDetectedChar := [],
       transmissionStartTime := 0, recentCharacters := [], charFrequencyCounts := []\<rparr>"

subsection \<open>Duplicate suppression\<close>

definition isCommonRepeatingChar :: "char \<Rightarrow> bool" where
  "isCommonRepeatingChar char = List.member ''ELOTMSPA'' char"

text \<open>
  The character class of the regular expression in \<^verbatim>\<open>shouldAddCharacter\<close>:
  \<^verbatim>\<open>- _ + = $ & @ # % ^ * ( ) { } [ ] | \ : ; " ' < > , . ? /\<close>.
\<close>

definition matchesPunctuation :: "char \<Rightarrow> bool" where
  "matchesPunctuation char =
     List.member (''-_+=$&@#%^*(){}[]|'' @ [CHR 0x5C] @ '':;'' @ [CHR 0x22, CHR 0x27]
                  @ ''<>,.?/'') char"

text \<open>
  The backward loop over the last \<^verbatim>\<open>Math.min(recentCharacters.length, 4)\<close> entries, given
  newest first. The result is \<open>True\<close> where the loop executes \<^verbatim>\<open>return false\<close>.
\<close>

fun consecutiveLoop :: "(char \<times> int) list \<Rightarrow> char \<Rightarrow> nat \<Rightarrow> bool" where
  "consecutiveLoop [] char consecutiveCount = False"
| "consecutiveLoop (entry # entries) char consecutiveCount =
     (if fst entry = char then
        (if 3 \<le> consecutiveCount + 1 \<and> char \<noteq> CHR '' '' \<and> \<not> isCommonRepeatingChar char
         then True
         else consecutiveLoop entries char (consecutiveCount + 1))
      else False)"

text \<open>
  \<^verbatim>\<open>shouldAddCharacter(char)\<close>, with the reading \<open>now\<close> of \<^verbatim>\<open>Date.now()\<close>. The window is
  filtered in place before any check, so a rejecting call changes the session too.
\<close>

definition shouldAddCharacter :: "codec \<Rightarrow> decoder \<Rightarrow> char \<Rightarrow> int \<Rightarrow> bool \<times> decoder" where
  "shouldAddCharacter c s char now =
     (let s1 = s\<lparr>recentCharacters :=
                   filter (\<lambda>entry. now - snd entry < RECENT_WINDOW c) (recentCharacters s)\<rparr>;
          recent = recentCharacters s1;
          recentCharsToCheck = min (length recent) 4
      in
      if list_ex (\<lambda>entry. fst entry = char \<and> now - snd entry < CHARACTER_LOCKOUT_TIME c) recent
      then (False, s1)
      else if consecutiveLoop (take recentCharsToCheck (rev recent)) char 0
      then (False, s1)
      else if matchesPunctuation char
              \<and> list_ex (\<lambda>entry. fst entry = char \<and> now - snd entry < 350) recent
      then (False, s1)
      else (True, s1\<lparr>recentCharacters := recent @ [(char, now)]\<rparr>))"

subsection \<open>The decoder state machine\<close>

text \<open>
  The peak search: the first bin holding the strict maximum, \<open>(0, 0)\<close> on silence. The
  frequency of the peak bin is read only after the threshold return, which an empty snapshot
  takes, so the division is never by zero.
\<close>

fun peakLoop :: "8 word list \<Rightarrow> nat \<Rightarrow> nat \<times> nat \<Rightarrow> nat \<times> nat" where
  "peakLoop [] i (maxBin, maxValue) = (maxBin, maxValue)"
| "peakLoop (x # xs) i (maxBin, maxValue) =
     (if maxValue < unat x then peakLoop xs (Suc i) (i, unat x)
      else peakLoop xs (Suc i) (maxBin, maxValue))"

definition binFrequencyOf :: "8 word list \<Rightarrow> rat \<Rightarrow> rat" where
  "binFrequencyOf frequencyData sampleRate =
     of_nat (fst (peakLoop frequencyData 0 (0, 0))) * sampleRate
       / of_nat (length frequencyData * 2)"

definition timeoutMessage :: "string \<Rightarrow> string" where
  "timeoutMessage message =
     (if 0 < length message then ''[STREAM_END] '' @ message @ '' (timeout)''
      else ''[STREAM_END] (timeout)'')"

definition postProcessMessage :: "string \<Rightarrow> string" where
  "postProcessMessage message = message"

text \<open>
  \<^verbatim>\<open>decodeAudio(frequencyData, sampleRate)\<close>. \<open>currentTime\<close> is the reading of
  \<^verbatim>\<open>Date.now()\<close> in the body and \<open>now\<close> the later reading inside
  \<^verbatim>\<open>shouldAddCharacter\<close>. The result is the session after the call and the returned
  event (\<open>None\<close> for \<^verbatim>\<open>null\<close>). No statement of the body throws, so the
  \<^verbatim>\<open>catch\<close> branch has no counterpart.
\<close>

definition decodeAudio ::
  "codec \<Rightarrow> decoder \<Rightarrow> 8 word list \<Rightarrow> rat \<Rightarrow> int \<Rightarrow> int \<Rightarrow> decoder \<times> string option" where
  "decodeAudio c s frequencyData sampleRate currentTime now =
     (let maxValue = snd (peakLoop frequencyData 0 (0, 0)) in
      if maxValue < SIGNAL_THRESHOLD c then (s, None)
      else
      let binFrequency = binFrequencyOf frequencyData sampleRate in
      if binFrequency < MINIMUM_VALID_FREQUENCY \<or> MAXIMUM_VALID_FREQUENCY < binFrequency
      then (s, None)
      else if \<bar>binFrequency - lastDetectedFrequency s\<bar> < 15
              \<and> currentTime - lastDetectedTime s < DEBOUNCE_TIME c
      then (s, None)
      else
      let s1 = (if SIGNAL_THRESHOLD c < maxValue
                then s\<lparr>lastDetectedFrequency := binFrequency, lastDetectedTime := currentTime\<rparr>
                else s)
      in
      if isReceivingMessage s1 \<and> TRANSMISSION_TIMEOUT c < currentTime - transmissionStartTime s1
      then (s1\<lparr>isReceivingMessage := False, messageBuffer := [], charFrequencyCounts := []\<rparr>,
            Some (timeoutMessage (messageBuffer s1)))
      else if \<not> isReceivingMessage s1
              \<and> \<bar>binFrequency - START_FREQUENCY c\<bar> < FREQUENCY_TOLERANCE c
              \<and> SIGNAL_THRESHOLD c < maxValue
      then
        (let s2 = s1\<lparr>startMarkerDetectionCount := startMarkerDetectionCount s1 + 1\<rparr> in
         if 2 \<le> startMarkerDetectionCount s2
         then (s2\<lparr>isReceivingMessage := True, messageBuffer := [],
                  transmissionStartTime := currentTime, startMarkerDetectionCount := 0,
                  recentCharacters := [], charFrequencyCounts := []\<rparr>,
               Some ''[STREAM_START]'')
         else (s2, None))
      else
      let s2 = (if \<not> isReceivingMessage s1 then s1\<lparr>startMarkerDetectionCount := 0\<rparr> else s1)
      in
      if isReceivingMessage s2
         \<and> \<bar>binFrequency - END_FREQUENCY c\<bar> < FREQUENCY_TOLERANCE c
         \<and> SIGNAL_THRESHOLD c < maxValue
      then
        (let s3 = s2\<lparr>endMarkerDetectionCount := endMarkerDetectionCount s2 + 1\<rparr> in
         if 2 \<le> endMarkerDetectionCount s3
         then
           (let processedMessage = postProcessMessage (messageBuffer s3) in
            (s3\<lparr>isReceivingMessage := False, messageBuffer := [],
                endMarkerDetectionCount := 0, recentCharacters := [],
                charFrequencyCounts := []\<rparr>,
             Some (if 0 < length processedMessage then ''[STREAM_END] '' @ processedMessage
                   else ''[STREAM_END]'')))
         else (s3, None))
      else if isReceivingMessage s2
      then
        (let s3 = s2\<lparr>endMarkerDetectionCount := 0\<rparr> in
         if MINIMUM_VALID_FREQUENCY \<le> binFrequency \<and> binFrequency \<le> MAXIMUM_VALID_FREQUENCY
         then
           (case frequencyToChar c binFrequency of
              None \<Rightarrow> (s3, None)
            | Some char \<Rightarrow>
                (let upperChar = toUpperCase char;
                     (accepted, s4) = shouldAddCharacter c s3 upperChar now
                 in
                 if accepted
                 then (s4\<lparr>messageBuffer := messageBuffer s4 @ [upperChar],
                          lastDetectedChar := [upperChar]\<rparr>,
                       Some (''[STREAM]'' @ [upperChar]))
                 else (s4, None)))
         else (s3, None))
      else (s2, None))"

subsection \<open>The audio backend\<close>

text \<open>
  What the codec uses of the Web Audio interface. An \<^verbatim>\<open>AudioContext\<close> has a state, a clock
  and the nodes created on it; \<open>resumeOutcome\<close> is how the backend answers a call of
  \<^verbatim>\<open>resume()\<close>: the promise rejects, or it resolves and leaves the context in the given
  state. Nodes are named by the order of their creation. The store \<open>gain\<close> holds, for every
  gain node, the automation events scheduled on its \<^verbatim>\<open>gain\<close> parameter, so that the list
  of active oscillators and the audio graph share the nodes. An oscillator is described by
  the tone that starts and stops it.
\<close>

datatype audio_context_state = Running | Suspended | Closed

datatype resume_outcome = ResumeRejects | ResumeResolves audio_context_state

record audio_context =
  contextState :: audio_context_state
  resumeOutcome :: resume_outcome
  contextTime :: rat
  nodeCount :: nat
  gain :: "nat \<Rightarrow> gain_event list option"

definition ensureAudioContextReady :: "audio_context \<Rightarrow> bool \<times> audio_context" where
  "ensureAudioContextReady a =
     (if contextState a = Closed then (False, a)
      else if contextState a = Suspended then
        (case resumeOutcome a of
           ResumeRejects \<Rightarrow> (False, a)
         | ResumeResolves after \<Rightarrow> (after \<noteq> Suspended, a\<lparr>contextState := after\<rparr>))
      else (True, a))"

definition createOscillator :: "audio_context \<Rightarrow> nat \<times> audio_context" where
  "createOscillator a = (nodeCount a, a\<lparr>nodeCount := nodeCount a + 1\<rparr>)"

definition createGain :: "audio_context \<Rightarrow> nat \<times> audio_context" where
  "createGain a =
     (nodeCount a, a\<lparr>nodeCount := nodeCount a + 1, gain := (gain a)(nodeCount a \<mapsto> [])\<rparr>)"

definition automation :: "audio_context \<Rightarrow> nat \<Rightarrow> gain_event list" where
  "automation a g = (case gain a g of None \<Rightarrow> [] | Some events \<Rightarrow> events)"

definition scheduleGain :: "nat \<Rightarrow> gain_event list \<Rightarrow> audio_context \<Rightarrow> audio_context" where
  "scheduleGain g events a = a\<lparr>gain := (gain a)(g \<mapsto> automation a g @ events)\<rparr>"

fun eventTime :: "gain_event \<Rightarrow> rat" where
  "eventTime (SetValueAtTime v t) = t"
| "eventTime (LinearRampToValueAtTime v t) = t"
| "eventTime (ExponentialRampToValueAtTime v t) = t"

text \<open>
  \<^verbatim>\<open>cancelScheduledValues(cancelTime)\<close> removes the events at or after \<open>cancelTime\<close>.
\<close>

definition cancelScheduledValues :: "rat \<Rightarrow> gain_event list \<Rightarrow> gain_event list" where
  "cancelScheduledValues cancelTime events = filter (\<lambda>e. eventTime e < cancelTime) events"

subsection \<open>The encoder\<close>

text \<open>
  A scheduled tone: the oscillator started at \<open>toneStart\<close> and stopped at \<open>toneStop\<close>, its gain
  node, and the second oscillator of the parallel-tone mode (its frequency, the oscillator
  and its gain node), which starts and stops with the first.
\<close>

record tone =
  toneFrequency :: rat
  toneStart :: rat
  toneStop :: rat
  toneOscillator :: nat
  toneGainNode :: nat
  toneParallel :: "(rat \<times> nat \<times> nat) option"

text \<open>The type \<^verbatim>\<open>AudioNodeSet\<close> of \<^verbatim>\<open>encodeText\<close>.\<close>

record audio_node_set =
  nodeChar :: char
  nodeFrequency :: rat
  nodeOscillator :: nat
  nodeGainNode :: nat
  nodeOscillator2 :: "nat option"
  nodeGainNode2 :: "nat option"

text \<open>An entry of \<^verbatim>\<open>activeOscillators\<close>, and the pause state of the whale module.\<close>

record active_oscillator =
  oscillator :: "nat option"
  gainNode :: nat
  stopTime :: rat

record transmitter =
  isTransmissionPaused :: bool
  pauseStartTime :: rat
  totalPausedDuration :: rat
  activeOscillators :: "active_oscillator list"

definition initialTransmitter :: transmitter where
  "initialTransmitter =
     \<lparr>isTransmissionPaused = False, pauseStartTime = 0, totalPausedDuration = 0,
      activeOscillators = []\<rparr>"

text \<open>
  \<^verbatim>\<open>playTone\<close> returns the time after the tone, here with the context and the tone it
  scheduled (none when the context is not ready). The frequency sweep of the whale module
  is switched off by the constant \<^verbatim>\<open>USE_FREQUENCY_SWEEP = false\<close> and is left out.
\<close>

definition playTone ::
  "codec \<Rightarrow> audio_context \<Rightarrow> rat \<Rightarrow> rat \<Rightarrow> rat \<Rightarrow> rat \<Rightarrow> rat \<times> audio_context \<times> tone list" where
  "playTone c a frequency duration startTime volume =
     (let (isReady, a0) = ensureAudioContextReady a in
      if \<not> isReady then (startTime, a0, [])
      else
      let (osc, a1) = createOscillator a0;
          (gn, a2) = createGain a1;
          a3 = scheduleGain gn (playToneEnvelope c volume startTime duration) a2
      in
      if USE_PARALLEL_TONES c \<and> frequency \<noteq> START_FREQUENCY c \<and> frequency \<noteq> END_FREQUENCY c
      then
        (let (osc2, a4) = createOscillator a3;
             (gn2, a5) = createGain a4;
             a6 = scheduleGain gn2
                    (playToneEnvelope c (PARALLEL_TONE_VOLUME c) startTime duration) a5
         in (startTime + duration, a6,
             [\<lparr>toneFrequency = frequency, toneStart = startTime,
               toneStop = startTime + duration, toneOscillator = osc, toneGainNode = gn,
               toneParallel = Some (frequency + PARALLEL_TONE_OFFSET c, osc2, gn2)\<rparr>]))
      else (startTime + duration, a3,
            [\<lparr>toneFrequency = frequency, toneStart = startTime,
              toneStop = startTime + duration, toneOscillator = osc, toneGainNode = gn,
              toneParallel = None\<rparr>]))"

text \<open>
  The \<^verbatim>\<open>map\<close> and \<^verbatim>\<open>filter\<close> over the characters: a node set for every character with a
  frequency, in the order of the text; the others are skipped.
\<close>

fun createNodes :: "codec \<Rightarrow> audio_context \<Rightarrow> string \<Rightarrow> audio_node_set list \<times> audio_context" where
  "createNodes c a [] = ([], a)"
| "createNodes c a (char # characters) =
     (let frequency = charToFrequency c char in
      if frequency = 0 then createNodes c a characters
      else
      let (osc, a1) = createOscillator a;
          (gn, a2) = createGain a1;
          (osc2, gn2, a3) =
            (if USE_PARALLEL_TONES c
             then (let (o2, b1) = createOscillator a2; (g2, b2) = createGain b1
                   in (Some o2, Some g2, b2))
             else (None, None, a2));
          (nodes, a4) = createNodes c a3 characters
      in (\<lparr>nodeChar = char, nodeFrequency = frequency, nodeOscillator = osc,
           nodeGainNode = gn, nodeOscillator2 = osc2, nodeGainNode2 = gn2\<rparr> # nodes, a4))"

definition characterEnvelope :: "codec \<Rightarrow> rat \<Rightarrow> rat \<Rightarrow> gain_event list" where
  "characterEnvelope c volume time =
     (let fadeTime = min (5 / 1000) (CHARACTER_DURATION c / 12) in
      [SetValueAtTime 0 time,
       LinearRampToValueAtTime volume (time + fadeTime),
       SetValueAtTime volume (time + CHARACTER_DURATION c - fadeTime),
       LinearRampToValueAtTime 0 (time + CHARACTER_DURATION c)])"

text \<open>\<^verbatim>\<open>activeOscillators.push\<close>, which only the whale module has.\<close>

definition trackOscillator :: "codec \<Rightarrow> active_oscillator \<Rightarrow> transmitter \<Rightarrow> transmitter" where
  "trackOscillator c entry tx =
     (if PAUSE_CONTROL c then tx\<lparr>activeOscillators := activeOscillators tx @ [entry]\<rparr> else tx)"

text \<open>
  The scheduling loop of \<^verbatim>\<open>encodeText\<close>. The whale module waits at the head of each round
  while \<^verbatim>\<open>isTransmissionPaused\<close> is set; nothing in the loop clears the flag, so in a run
  that no other call interleaves a set flag means that the loop never ends: the result is
  \<open>None\<close>.
\<close>

fun scheduleNodes ::
  "codec \<Rightarrow> transmitter \<Rightarrow> audio_context \<Rightarrow> rat \<Rightarrow> audio_node_set list
     \<Rightarrow> (transmitter \<times> audio_context \<times> rat \<times> tone list) option" where
  "scheduleNodes c tx a time [] = Some (tx, a, time, [])"
| "scheduleNodes c tx a time (node # nodes) =
     (if PAUSE_CONTROL c \<and> isTransmissionPaused tx then None
      else
      let stop = time + CHARACTER_DURATION c;
          a1 = scheduleGain (nodeGainNode node) (characterEnvelope c (VOLUME c) time) a;
          tx1 = trackOscillator c
                  \<lparr>oscillator = Some (nodeOscillator node), gainNode = nodeGainNode node,
                   stopTime = stop\<rparr> tx;
          (parallel, a2, tx2) =
            (case (nodeOscillator2 node, nodeGainNode2 node) of
               (Some osc2, Some gn2) \<Rightarrow>
                 if USE_PARALLEL_TONES c
                 then (Some (nodeFrequency node + PARALLEL_TONE_OFFSET c, osc2, gn2),
                       scheduleGain gn2 (characterEnvelope c (PARALLEL_TONE_VOLUME c) time) a1,
                       trackOscillator c
                         \<lparr>oscillator = Some osc2, gainNode = gn2, stopTime = stop\<rparr> tx1)
                 else (None, a1, tx1)
             | _ \<Rightarrow> (None, a1, tx1))
      in
      case scheduleNodes c tx2 a2 (time + (CHARACTER_DURATION c + CHARACTER_GAP c)) nodes of
        None \<Rightarrow> None
      | Some (tx3, a3, time3, tones) \<Rightarrow>
          Some (tx3, a3, time3,
                \<lparr>toneFrequency = nodeFrequency node, toneStart = time, toneStop = stop,
                 toneOscillator = nodeOscillator node, toneGainNode = nodeGainNode node,
                 toneParallel = parallel\<rparr> # tones))"

text \<open>The first statements of \<^verbatim>\<open>encodeText\<close> in the whale module.\<close>

definition resetPauseState :: "codec \<Rightarrow> transmitter \<Rightarrow> transmitter" where
  "resetPauseState c tx =
     (if PAUSE_CONTROL c
      then tx\<lparr>isTransmissionPaused := False, totalPausedDuration := 0, activeOscillators := []\<rparr>
      else tx)"

text \<open>
  \<^verbatim>\<open>encodeText(text, audioContext)\<close>. The returned promise is only ever resolved: at once
  when the context is not ready, and otherwise by a timer set after the last tone is
  scheduled. The result gives the pause state and the context after the call, the tones
  scheduled in order and the delay of that timer in milliseconds; \<open>None\<close> stands for a call
  whose promise stays pending because the scheduling loop never ends.
\<close>

datatype completion = ResolvedAtOnce | ResolvedAfter rat

record encode_result =
  transmitterAfter :: transmitter
  contextAfter :: audio_context
  schedule :: "tone list"
  completion :: completion

definition encodeText ::
  "codec \<Rightarrow> transmitter \<Rightarrow> audio_context \<Rightarrow> string \<Rightarrow> encode_result option" where
  "encodeText c tx a text =
     (let tx0 = resetPauseState c tx;
          (isReady, a0) = ensureAudioContextReady a
      in
      if \<not> isReady
      then Some \<lparr>transmitterAfter = tx0, contextAfter = a0, schedule = [],
                 completion = ResolvedAtOnce\<rparr>
      else
      let text1 = map toUpperCase text;
          startTime = contextTime a0;
          time1 = startTime + 3 / 100;
          (time2, a1, startTones) =
            playTone c a0 (START_FREQUENCY c) (START_MARKER_DURATION c) time1 (VOLUME c);
          time3 = time2 + 3 / 100;
          (nodes, a2) = createNodes c a1 text1
      in
      case scheduleNodes c tx0 a2 time3 nodes of
        None \<Rightarrow> None
      | Some (tx1, a3, time4, characterTones) \<Rightarrow>
          (let time5 = time4 + 3 / 100;
               (time6, a4, endTones) =
                 playTone c a3 (END_FREQUENCY c) (END_MARKER_DURATION c) time5 (VOLUME c);
               totalDuration = (time6 - startTime) * 1000;
               endBuffer = max 100 (totalDuration * (5 / 100))
           in Some \<lparr>transmitterAfter = tx1, contextAfter = a4,
                      schedule = startTones @ characterTones @ endTones,
                      completion = ResolvedAfter (totalDuration + endBuffer)\<rparr>))"

subsection \<open>Pause and resume\<close>

text \<open>
  \<^verbatim>\<open>pauseTransmission\<close> and \<^verbatim>\<open>resumeTransmission\<close> of the whale module, with the reading
  \<open>now\<close> of \<^verbatim>\<open>performance.now()\<close>. Muting a gain node cancels its scheduled values from
  time 0 and sets the value 0 at time 0; neither call throws on a gain node.
\<close>

definition muteGain :: "nat \<Rightarrow> audio_context \<Rightarrow> audio_context" where
  "muteGain g a =
     a\<lparr>gain := (gain a)(g \<mapsto> cancelScheduledValues 0 (automation a g) @ [SetValueAtTime 0 0])\<rparr>"

definition pauseTransmission ::
  "transmitter \<Rightarrow> audio_context \<Rightarrow> rat \<Rightarrow> transmitter \<times> audio_context" where
  "pauseTransmission tx a now =
     (if \<not> isTransmissionPaused tx
      then (tx\<lparr>isTransmissionPaused := True, pauseStartTime := now\<rparr>,
            fold (\<lambda>entry. muteGain (gainNode entry)) (activeOscillators tx) a)
      else (tx, a))"

definition resumeTransmission :: "transmitter \<Rightarrow> rat \<Rightarrow> transmitter" where
  "resumeTransmission tx now =
     (if isTransmissionPaused tx
      then (let pauseDuration = now - pauseStartTime tx in
            tx\<lparr>totalPausedDuration := totalPausedDuration tx + pauseDuration,
               isTransmissionPaused := False, activeOscillators := []\<rparr>)
      else tx)"

definition getTransmissionPauseState :: "transmitter \<Rightarrow> bool" where
  "getTransmissionPauseState tx = isTransmissionPaused tx"

definition getTotalPausedDuration :: "transmitter \<Rightarrow> rat" where
  "getTotalPausedDuration tx = totalPausedDuration tx"

subsection \<open>Auxiliary notions of the verification\<close>

text \<open>Every frequency of a table is a whole multiple of 100 Hz.\<close>

definition hundreds :: "(char \<times> rat) list \<Rightarrow> bool" where
  "hundreds kvs = list_all (\<lambda>e. snd e = 100 * of_int \<lfloor>snd e / 100\<rfloor>) kvs"

text \<open>
  A tick gets past the three early returns of \<^verbatim>\<open>decodeAudio\<close>: the peak reaches the
  signal threshold, its frequency lies in the valid band, and the debounce test does not
  fire.
\<close>

definition passesChecks :: "codec \<Rightarrow> decoder \<Rightarrow> 8 word list \<Rightarrow> rat \<Rightarrow> int \<Rightarrow> bool" where
  "passesChecks c s frequencyData sampleRate currentTime =
     (SIGNAL_THRESHOLD c \<le> snd (peakLoop frequencyData 0 (0, 0))
      \<and> MINIMUM_VALID_FREQUENCY \<le> binFrequencyOf frequencyData sampleRate
      \<and> binFrequencyOf frequencyData sampleRate \<le> MAXIMUM_VALID_FREQUENCY
      \<and> \<not> (\<bar>binFrequencyOf frequencyData sampleRate - lastDetectedFrequency s\<bar> < 15
             \<and> currentTime - lastDetectedTime s < DEBOUNCE_TIME c))"

text \<open>The peak of a snapshot reproduces the start marker above the signal threshold.\<close>

definition matchesStartMarker :: "codec \<Rightarrow> 8 word list \<Rightarrow> rat \<Rightarrow> bool" where
  "matchesStartMarker c frequencyData sampleRate =
     (\<bar>binFrequencyOf frequencyData sampleRate - START_FREQUENCY c\<bar> < FREQUENCY_TOLERANCE c
      \<and> SIGNAL_THRESHOLD c < snd (peakLoop frequencyData 0 (0, 0)))"

text \<open>
  A caller of the decoder: a list of calls, run in order from a session, with the events
  they return.
\<close>

datatype decoder_call = DecodeAudio "8 word list" rat int int | ResetDecoder

fun applyCall :: "codec \<Rightarrow> decoder \<Rightarrow> decoder_call \<Rightarrow> decoder \<times> string option" where
  "applyCall c s (DecodeAudio frequencyData sampleRate currentTime now) =
     decodeAudio c s frequencyData sampleRate currentTime now"
| "applyCall c s ResetDecoder = (resetDecoder s, None)"

fun runDecoder :: "codec \<Rightarrow> decoder \<Rightarrow> decoder_call list \<Rightarrow> decoder \<times> string option list" where
  "runDecoder c s [] = (s, [])"
| "runDecoder c s (call # calls) =
     (let (s1, event) = applyCall c s call;
          (s2, events) = runDecoder c s1 calls
      in (s2, event # events))"

text \<open>
  Snapshots of 16 bins at a sample rate of 16000 Hz (bin \<open>i\<close> is \<open>500 * i\<close> Hz): silence,
  a peak of strength 200 at 1000 Hz (the start marker of the whale module) and one at
  500 Hz (its letter A).
\<close>

definition silence :: "8 word list" where
  "silence = [0, 0, 0, 0, 0, 0, 0, 0, 0, 0, 0, 0, 0, 0, 0, 0]"

definition startSnapshot :: "8 word list" where
  "startSnapshot = [0, 0, 200, 0, 0, 0, 0, 0, 0, 0, 0, 0, 0, 0, 0, 0]"

definition letterASnapshot :: "8 word list" where
  "letterASnapshot = [0, 200, 0, 0, 0, 0, 0, 0, 0, 0, 0, 0, 0, 0, 0, 0]"

text \<open>
  Sessions of the whale decoder: after one start-marker tick at 1000 ms, after a second one
  at 1400 ms (receiving), and after the letter A at 3000 ms.
\<close>

definition oneStartHit :: decoder where
  "oneStartHit = fst (decodeAudio whale initialDecoder startSnapshot 16000 1000 1000)"

definition receiving :: decoder where
  "receiving = fst (decodeAudio whale oneStartHit startSnapshot 16000 1400 1400)"

definition receivedA :: decoder where
  "receivedA = fst (decodeAudio whale receiving letterASnapshot 16000 3000 3000)"

text \<open>
  The fast decoder after the letter B was accepted at 0 ms and again at 150 ms.
\<close>

definition twoB :: decoder where
  "twoB = snd (shouldAddCharacter fast (snd (shouldAddCharacter fast initialDecoder CHR ''B'' 0))
                 CHR ''B'' 150)"






text \<open>
  The audio backend is unusable: the context is closed, or it is suspended and resuming it
  fails (the promise rejects, or it resolves with the context still suspended). It is ready
  when it runs, or is suspended and resumes.
\<close>

definition unusable :: "audio_context \<Rightarrow> bool" where
  "unusable a =
     (contextState a = Closed
      \<or> (contextState a = Suspended
          \<and> (resumeOutcome a = ResumeRejects \<or> resumeOutcome a = ResumeResolves Suspended)))"

definition ready :: "audio_context \<Rightarrow> bool" where
  "ready a =
     (contextState a = Running
      \<or> (contextState a = Suspended \<and> resumeOutcome a = ResumeResolves Running))"

text \<open>A character is supported when \<^verbatim>\<open>encodeText\<close> does not skip it.\<close>

definition supported :: "codec \<Rightarrow> char \<Rightarrow> bool" where
  "supported c ch = (charToFrequency c ch \<noteq> 0)"

text \<open>
  A running context with no nodes, at 10 s of its clock, and the whale transmission of the
  text \<^verbatim>\<open>A\<close> on it from the initial pause state.
\<close>

definition freshContext :: audio_context where
  "freshContext =
     \<lparr>contextState = Running, resumeOutcome = ResumeResolves Running, contextTime = 10,
      nodeCount = 0, gain = (\<lambda>g. None)\<rparr>"

definition transmissionOfA :: encode_result where
  "transmissionOfA = the (encodeText whale initialTransmitter freshContext ''A'')"

section \<open>Verification\<close>

subsection \<open>The character map round-trips\<close>

lemma set_objectEntries: "set (objectEntries kvs) = set kvs"
  by (auto simp add: objectEntries_def)

lemma frequencyToCharLoop_first:
  assumes "0 < tolerance" and "(ch, f) \<in> set entries"
    and "\<forall>e \<in> set entries. \<bar>f - snd e\<bar> < tolerance \<longrightarrow> fst e = ch"
  shows "frequencyToCharLoop tolerance f entries = Some ch"
  using assms(2,3)
proof (induction entries)
  case Nil
  then show ?case by simp
next
  case (Cons e entries)
  obtain ch' f' where e: "e = (ch', f')" by (cases e)
  show ?case
  proof (cases "\<bar>f - f'\<bar> < tolerance")
    case True
    with Cons.prems(2) e have "ch' = ch" by simp
    with True e show ?thesis by simp
  next
    case False
    with assms(1) e Cons.prems(1) have "(ch, f) \<in> set entries" by auto
    with Cons.IH Cons.prems(2) False e show ?thesis by simp
  qed
qed

lemma hundred_multiples_apart:
  fixes k k' :: int
  assumes "\<bar>100 * (k - k')\<bar> < 45"
  shows "k = k'"
proof (rule ccontr)
  assume "k \<noteq> k'"
  then have "1 \<le> \<bar>k - k'\<bar>" by simp
  then have "100 \<le> 100 * \<bar>k - k'\<bar>" by simp
  moreover have "\<bar>100 * (k - k')\<bar> = 100 * \<bar>k - k'\<bar>" by (simp only: abs_mult abs_numeral)
  ultimately show False using assms by simp
qed

lemma hundreds_apart:
  assumes "hundreds kvs" and "e \<in> set kvs" and "e' \<in> set kvs" and "\<bar>snd e - snd e'\<bar> < 45"
  shows "snd e = snd e'"
proof -
  from assms(1,2) have "snd e = 100 * of_int \<lfloor>snd e / 100\<rfloor>"
    by (simp add: hundreds_def list_all_iff)
  then obtain k :: int where k: "snd e = 100 * of_int k" ..
  from assms(1,3) have "snd e' = 100 * of_int \<lfloor>snd e' / 100\<rfloor>"
    by (simp add: hundreds_def list_all_iff)
  then obtain k' :: int where k': "snd e' = 100 * of_int k'" ..
  have d: "snd e - snd e' = of_int (100 * (k - k'))"
    by (simp add: k k')
  from assms(4) have "\<bar>(of_int (100 * (k - k')) :: rat)\<bar> < of_int 45"
    unfolding d by (simp only: of_int_numeral)
  then have "(of_int \<bar>100 * (k - k')\<bar> :: rat) < of_int 45"
    by (simp only: of_int_abs)
  then have "\<bar>100 * (k - k')\<bar> < 45"
    by (simp only: of_int_less_iff)
  then have "k = k'" by (rule hundred_multiples_apart)
  with k k' show ?thesis by simp
qed

lemma roundtrip_table:
  assumes tab: "CHAR_FREQUENCIES c = kvs" and tol: "FREQUENCY_TOLERANCE c = 45"
    and keys: "distinct (map fst kvs)" and freqs: "distinct (map snd kvs)"
    and upper: "list_all (\<lambda>e. toUpperCase (fst e) = fst e) kvs"
    and h: "hundreds kvs"
    and mem: "(ch, f) \<in> set kvs"
  shows "charToFrequency c ch = f \<and> frequencyToChar c f = Some ch"
proof -
  have "toUpperCase ch = ch"
    using upper mem by (auto simp add: list_all_iff)
  moreover have "map_of kvs ch = Some f"
    using keys mem by simp
  ultimately have 1: "charToFrequency c ch = f"
    by (simp add: charToFrequency_def tab)
  have "\<forall>e \<in> set (objectEntries kvs). \<bar>f - snd e\<bar> < 45 \<longrightarrow> fst e = ch"
  proof (intro ballI impI)
    fix e assume e: "e \<in> set (objectEntries kvs)" and near: "\<bar>f - snd e\<bar> < 45"
    then have "e \<in> set kvs" by (simp add: set_objectEntries)
    with hundreds_apart [OF h mem this] near have "snd e = f" by simp
    moreover from freqs have "inj_on snd (set kvs)" by (simp add: distinct_map)
    ultimately have "e = (ch, f)"
      using mem \<open>e \<in> set kvs\<close> inj_onD [of snd "set kvs" e "(ch, f)"] by simp
    then show "fst e = ch" by simp
  qed
  then have "frequencyToCharLoop 45 f (objectEntries kvs) = Some ch"
    using mem by (intro frequencyToCharLoop_first) (simp_all add: set_objectEntries)
  with 1 show ?thesis by (simp add: frequencyToChar_def tab tol)
qed

lemma whale_table:
  "distinct (map fst CHAR_FREQUENCIES_whale)" "distinct (map snd CHAR_FREQUENCIES_whale)"
  "list_all (\<lambda>e. toUpperCase (fst e) = fst e) CHAR_FREQUENCIES_whale"
  "hundreds CHAR_FREQUENCIES_whale"
  by (simp_all add: CHAR_FREQUENCIES_whale_def toUpperCase_def hundreds_def)

lemma fast_table:
  "distinct (map fst CHAR_FREQUENCIES_fast)" "distinct (map snd CHAR_FREQUENCIES_fast)"
  "list_all (\<lambda>e. toUpperCase (fst e) = fst e) CHAR_FREQUENCIES_fast"
  "hundreds CHAR_FREQUENCIES_fast"
  by (simp_all add: CHAR_FREQUENCIES_fast_def toUpperCase_def hundreds_def)

lemma roundtrip_whale:
  "(ch, f) \<in> set CHAR_FREQUENCIES_whale \<Longrightarrow>
     charToFrequency whale ch = f \<and> frequencyToChar whale f = Some ch"
  by (rule roundtrip_table [OF _ _ whale_table]) (simp_all add: whale_def)

lemma roundtrip_fast:
  "(ch, f) \<in> set CHAR_FREQUENCIES_fast \<Longrightarrow>
     charToFrequency fast ch = f \<and> frequencyToChar fast f = Some ch"
  by (rule roundtrip_table [OF _ _ fast_table]) (simp_all add: fast_def)

text \<open>
  C5. For every key \<open>ch\<close> of the table \<^verbatim>\<open>CHAR_FREQUENCIES\<close>, in the whale and in the
  fast module, \<^verbatim>\<open>frequencyToChar(charToFrequency(ch))\<close> is \<open>ch\<close>.
\<close>

theorem frequencyToChar_charToFrequency:
  assumes "c = whale \<or> c = fast" and "ch \<in> fst ` set (CHAR_FREQUENCIES c)"
  shows "frequencyToChar c (charToFrequency c ch) = Some ch"
proof -
  from assms(2) obtain f where f: "(ch, f) \<in> set (CHAR_FREQUENCIES c)" by auto
  from assms(1) show ?thesis
  proof
    assume "c = whale"
    with f roundtrip_whale [of ch f] show ?thesis by (simp add: whale_def)
  next
    assume "c = fast"
    with f roundtrip_fast [of ch f] show ?thesis by (simp add: fast_def)
  qed
qed

theorem frequencyToChar_charToFrequency_witness:
  "(fast = whale \<or> fast = fast) \<and> CHR ''7'' \<in> fst ` set (CHAR_FREQUENCIES fast)
   \<and> frequencyToChar fast (charToFrequency fast CHR ''7'') = Some CHR ''7''"
proof -
  have k: "(CHR ''7'', 5400) \<in> set (CHAR_FREQUENCIES fast)"
    by (simp add: fast_def CHAR_FREQUENCIES_fast_def)
  then have "CHR ''7'' \<in> fst ` set (CHAR_FREQUENCIES fast)" by force
  with frequencyToChar_charToFrequency [of fast "CHR ''7''"] show ?thesis by simp
qed

lemma whale_consts:
  "START_FREQUENCY whale = 1000" "END_FREQUENCY whale = 800"
  "FREQUENCY_TOLERANCE whale = 45" "SIGNAL_THRESHOLD whale = 135"
  "DEBOUNCE_TIME whale = 350" "CHARACTER_LOCKOUT_TIME whale = 1800"
  "RECENT_WINDOW whale = 2000" "TRANSMISSION_TIMEOUT whale = 50000"
  "CHAR_FREQUENCIES whale = CHAR_FREQUENCIES_whale"
  by (simp_all add: whale_def)

lemma fast_consts:
  "START_FREQUENCY fast = 2500" "END_FREQUENCY fast = 2700"
  "FREQUENCY_TOLERANCE fast = 45" "SIGNAL_THRESHOLD fast = 135"
  "DEBOUNCE_TIME fast = 75" "CHARACTER_LOCKOUT_TIME fast = 120"
  "RECENT_WINDOW fast = 450" "TRANSMISSION_TIMEOUT fast = 15000"
  "CHAR_FREQUENCIES fast = CHAR_FREQUENCIES_fast"
  by (simp_all add: fast_def)

lemma snapshot_peaks:
  "peakLoop silence 0 (0, 0) = (0, 0)"
  "peakLoop startSnapshot 0 (0, 0) = (2, 200)"
  "peakLoop letterASnapshot 0 (0, 0) = (1, 200)"
  by (simp_all add: silence_def startSnapshot_def letterASnapshot_def)

lemma snapshot_frequencies:
  "binFrequencyOf startSnapshot 16000 = 1000"
  "binFrequencyOf letterASnapshot 16000 = 500"
  by (simp_all add: binFrequencyOf_def snapshot_peaks)
     (simp_all add: startSnapshot_def letterASnapshot_def)

lemma frequencyToChar_whale_500: "frequencyToChar whale 500 = Some CHR ''A''"
  using roundtrip_whale [of "CHR ''A''" 500] by (simp add: CHAR_FREQUENCIES_whale_def)

lemma oneStartHit_eq:
  "oneStartHit = initialDecoder\<lparr>lastDetectedFrequency := 1000, lastDetectedTime := 1000,
                                 startMarkerDetectionCount := 1\<rparr>"
  by (simp add: oneStartHit_def decodeAudio_def snapshot_peaks snapshot_frequencies whale_consts
      initialDecoder_def MINIMUM_VALID_FREQUENCY_def MAXIMUM_VALID_FREQUENCY_def)

lemma receiving_eq:
  "receiving = initialDecoder\<lparr>lastDetectedFrequency := 1000, lastDetectedTime := 1400,
                               isReceivingMessage := True, transmissionStartTime := 1400\<rparr>"
  by (simp add: receiving_def oneStartHit_eq decodeAudio_def snapshot_peaks
      snapshot_frequencies whale_consts initialDecoder_def MINIMUM_VALID_FREQUENCY_def
      MAXIMUM_VALID_FREQUENCY_def)

lemma receiving_letterA:
  "decodeAudio whale receiving letterASnapshot 16000 3000 3000 =
     (initialDecoder\<lparr>lastDetectedFrequency := 500, lastDetectedTime := 3000,
                      isReceivingMessage := True, transmissionStartTime := 1400,
                      recentCharacters := [(CHR ''A'', 3000)], messageBuffer := ''A'',
                      lastDetectedChar := ''A''\<rparr>, Some ''[STREAM]A'')"
  by (simp add: receiving_eq decodeAudio_def snapshot_peaks snapshot_frequencies whale_consts
      initialDecoder_def MINIMUM_VALID_FREQUENCY_def MAXIMUM_VALID_FREQUENCY_def
      frequencyToChar_whale_500 toUpperCase_def shouldAddCharacter_def
      isCommonRepeatingChar_def matchesPunctuation_def Let_def)

lemma receivedA_eq:
  "receivedA = initialDecoder\<lparr>lastDetectedFrequency := 500, lastDetectedTime := 3000,
                      isReceivingMessage := True, transmissionStartTime := 1400,
                      recentCharacters := [(CHR ''A'', 3000)], messageBuffer := ''A'',
                      lastDetectedChar := ''A''\<rparr>"
  by (simp add: receivedA_def receiving_letterA)

lemma twoB_eq:
  "twoB = initialDecoder\<lparr>recentCharacters := [(CHR ''B'', 0), (CHR ''B'', 150)]\<rparr>"
  by (simp add: twoB_def shouldAddCharacter_def fast_consts initialDecoder_def
      isCommonRepeatingChar_def matchesPunctuation_def)


subsection \<open>Ticks that return early\<close>

lemma decodeAudio_blocked:
  "\<not> passesChecks c s d r t \<Longrightarrow> decodeAudio c s d r t n = (s, None)"
  by (auto simp add: decodeAudio_def passesChecks_def Let_def)

lemma passesChecks_silence: "\<not> passesChecks whale s silence 16000 t"
  by (simp add: passesChecks_def snapshot_peaks whale_consts)

subsection \<open>Timeout\<close>

text \<open>
  C1, as stated, fails: the session \<open>receiving\<close> started its transmission at 1400 ms, and a
  silent snapshot at 60000 ms, more than 50 s later, returns \<^verbatim>\<open>null\<close> and leaves the
  session receiving.
\<close>

theorem decodeAudio_timeout_counterexample:
  "isReceivingMessage receiving
   \<and> TRANSMISSION_TIMEOUT whale < 60000 - transmissionStartTime receiving
   \<and> decodeAudio whale receiving silence 16000 60000 60000 = (receiving, None)"
  by (simp add: decodeAudio_blocked [OF passesChecks_silence] whale_consts)
     (simp add: receiving_eq initialDecoder_def)

text \<open>
  C1, amended. A call made while receiving, more than the timeout after the transmission
  start, whose snapshot gets past the signal-threshold, frequency-band and debounce returns,
  ends the transmission: it returns \<^verbatim>\<open>[STREAM_END]\<close> with the buffer (when not empty) and
  the suffix \<^verbatim>\<open>(timeout)\<close>, whatever marker or character the peak matches, and leaves the
  session idle with an empty buffer.
\<close>

theorem decodeAudio_timeout:
  assumes "isReceivingMessage s"
    and "TRANSMISSION_TIMEOUT c < currentTime - transmissionStartTime s"
    and "passesChecks c s frequencyData sampleRate currentTime"
  shows "snd (decodeAudio c s frequencyData sampleRate currentTime now) =
           Some (if messageBuffer s = [] then ''[STREAM_END] (timeout)''
                 else ''[STREAM_END] '' @ messageBuffer s @ '' (timeout)'')
         \<and> \<not> isReceivingMessage (fst (decodeAudio c s frequencyData sampleRate currentTime now))
         \<and> messageBuffer (fst (decodeAudio c s frequencyData sampleRate currentTime now)) = []"
  using assms
  by (simp add: decodeAudio_def passesChecks_def Let_def timeoutMessage_def)

theorem decodeAudio_timeout_witness:
  "isReceivingMessage receivedA
   \<and> TRANSMISSION_TIMEOUT whale < 60000 - transmissionStartTime receivedA
   \<and> passesChecks whale receivedA letterASnapshot 16000 60000
   \<and> snd (decodeAudio whale receivedA letterASnapshot 16000 60000 60000) =
       Some ''[STREAM_END] A (timeout)''
   \<and> \<not> isReceivingMessage (fst (decodeAudio whale receivedA letterASnapshot 16000 60000 60000))"
proof -
  have 1: "isReceivingMessage receivedA"
    and 2: "TRANSMISSION_TIMEOUT whale < 60000 - transmissionStartTime receivedA"
    and 3: "messageBuffer receivedA = ''A''"
    by (simp_all add: receivedA_eq whale_consts initialDecoder_def)
  have 4: "passesChecks whale receivedA letterASnapshot 16000 60000"
    by (simp add: passesChecks_def snapshot_peaks snapshot_frequencies whale_consts
        MINIMUM_VALID_FREQUENCY_def MAXIMUM_VALID_FREQUENCY_def)
       (simp add: receivedA_eq initialDecoder_def)
  from decodeAudio_timeout [OF 1 2 4, of 60000] 1 2 3 4 show ?thesis by simp
qed

subsection \<open>Start marker\<close>

text \<open>
  C2, as stated, fails twice. Two consecutive ticks at 1000 ms and 1016 ms that reproduce
  the start marker at strength 200 yield nothing and leave the decoder idle: the second is
  debounced. And a silent tick while idle leaves the confirmation counter at 1.
\<close>

theorem decodeAudio_start_marker_counterexample:
  "matchesStartMarker whale startSnapshot 16000
   \<and> runDecoder whale initialDecoder
        [DecodeAudio startSnapshot 16000 1000 1000, DecodeAudio startSnapshot 16000 1016 1016]
      = (oneStartHit, [None, None])
   \<and> \<not> isReceivingMessage oneStartHit
   \<and> startMarkerDetectionCount oneStartHit = 1
   \<and> startMarkerDetectionCount (fst (decodeAudio whale oneStartHit silence 16000 1016 1016)) = 1"
proof -
  have "\<not> passesChecks whale oneStartHit startSnapshot 16000 1016"
    by (simp add: passesChecks_def snapshot_peaks snapshot_frequencies whale_consts)
       (simp add: oneStartHit_eq initialDecoder_def)
  then have "decodeAudio whale oneStartHit startSnapshot 16000 1016 1016 = (oneStartHit, None)"
    by (rule decodeAudio_blocked)
  moreover have "decodeAudio whale initialDecoder startSnapshot 16000 1000 1000
                   = (oneStartHit, None)"
    by (simp add: oneStartHit_eq decodeAudio_def snapshot_peaks snapshot_frequencies
        whale_consts initialDecoder_def MINIMUM_VALID_FREQUENCY_def MAXIMUM_VALID_FREQUENCY_def)
  moreover have "matchesStartMarker whale startSnapshot 16000"
    by (simp add: matchesStartMarker_def snapshot_peaks snapshot_frequencies whale_consts)
  moreover have "\<not> isReceivingMessage oneStartHit" "startMarkerDetectionCount oneStartHit = 1"
    by (simp_all add: oneStartHit_eq initialDecoder_def)
  ultimately show ?thesis
    by (simp add: decodeAudio_blocked [OF passesChecks_silence])
qed

lemma start_first:
  assumes "\<not> isReceivingMessage s" and "passesChecks c s d r t" and "matchesStartMarker c d r"
    and "startMarkerDetectionCount s = 0"
  shows "decodeAudio c s d r t n =
          (s\<lparr>lastDetectedFrequency := binFrequencyOf d r, lastDetectedTime := t,
             startMarkerDetectionCount := 1\<rparr>, None)"
  using assms
  by (auto simp add: decodeAudio_def passesChecks_def matchesStartMarker_def Let_def)

lemma start_second:
  assumes "\<not> isReceivingMessage s" and "passesChecks c s d r t" and "matchesStartMarker c d r"
    and "1 \<le> startMarkerDetectionCount s"
  shows "decodeAudio c s d r t n =
          (s\<lparr>lastDetectedFrequency := binFrequencyOf d r, lastDetectedTime := t,
             startMarkerDetectionCount := 0, isReceivingMessage := True, messageBuffer := [],
             transmissionStartTime := t, recentCharacters := [], charFrequencyCounts := []\<rparr>,
           Some ''[STREAM_START]'')"
  using assms
  by (simp add: decodeAudio_def passesChecks_def matchesStartMarker_def Let_def)

lemma idle_reset:
  assumes "\<not> isReceivingMessage s" and "passesChecks c s d r t" and "\<not> matchesStartMarker c d r"
  shows "snd (decodeAudio c s d r t n) = None
     \<and> startMarkerDetectionCount (fst (decodeAudio c s d r t n)) = 0
     \<and> \<not> isReceivingMessage (fst (decodeAudio c s d r t n))"
  using assms
  by (auto simp add: decodeAudio_def passesChecks_def matchesStartMarker_def Let_def)

text \<open>
  C2, amended. While idle, a tick counts only when it gets past the signal-threshold,
  frequency-band and debounce returns; a tick that does not leaves the session as it is.
  Among the ticks that count: one that reproduces the start marker above the threshold
  yields nothing and sets the counter to 1 when the counter was 0, and commits when the
  counter was at least 1 (it returns \<^verbatim>\<open>[STREAM_START]\<close>, the session receives, the buffer
  and the recent characters are empty, the transmission start time is the time of the tick
  and the counter is 0 again); any other one yields nothing and resets the counter to 0.
\<close>

theorem decodeAudio_start_marker:
  assumes "\<not> isReceivingMessage s"
  shows "(\<not> passesChecks c s d r t \<longrightarrow> decodeAudio c s d r t n = (s, None))
    \<and> (passesChecks c s d r t \<and> matchesStartMarker c d r \<and> startMarkerDetectionCount s = 0 \<longrightarrow>
          snd (decodeAudio c s d r t n) = None
          \<and> \<not> isReceivingMessage (fst (decodeAudio c s d r t n))
          \<and> startMarkerDetectionCount (fst (decodeAudio c s d r t n)) = 1)
    \<and> (passesChecks c s d r t \<and> matchesStartMarker c d r \<and> 1 \<le> startMarkerDetectionCount s \<longrightarrow>
          snd (decodeAudio c s d r t n) = Some ''[STREAM_START]''
          \<and> isReceivingMessage (fst (decodeAudio c s d r t n))
          \<and> messageBuffer (fst (decodeAudio c s d r t n)) = []
          \<and> transmissionStartTime (fst (decodeAudio c s d r t n)) = t
          \<and> recentCharacters (fst (decodeAudio c s d r t n)) = []
          \<and> startMarkerDetectionCount (fst (decodeAudio c s d r t n)) = 0)
    \<and> (passesChecks c s d r t \<and> \<not> matchesStartMarker c d r \<longrightarrow>
          snd (decodeAudio c s d r t n) = None
          \<and> \<not> isReceivingMessage (fst (decodeAudio c s d r t n))
          \<and> startMarkerDetectionCount (fst (decodeAudio c s d r t n)) = 0)"
proof (intro conjI impI)
  assume "\<not> passesChecks c s d r t"
  then show "decodeAudio c s d r t n = (s, None)" by (rule decodeAudio_blocked)
next
  assume a: "passesChecks c s d r t \<and> matchesStartMarker c d r \<and> startMarkerDetectionCount s = 0"
  with assms have e: "decodeAudio c s d r t n =
          (s\<lparr>lastDetectedFrequency := binFrequencyOf d r, lastDetectedTime := t,
             startMarkerDetectionCount := 1\<rparr>, None)"
    by (intro start_first) simp_all
  show "snd (decodeAudio c s d r t n) = None"
    and "\<not> isReceivingMessage (fst (decodeAudio c s d r t n))"
    and "startMarkerDetectionCount (fst (decodeAudio c s d r t n)) = 1"
    using assms by (simp_all add: e)
next
  assume a: "passesChecks c s d r t \<and> matchesStartMarker c d r \<and> 1 \<le> startMarkerDetectionCount s"
  with assms have e: "decodeAudio c s d r t n =
          (s\<lparr>lastDetectedFrequency := binFrequencyOf d r, lastDetectedTime := t,
             startMarkerDetectionCount := 0, isReceivingMessage := True, messageBuffer := [],
             transmissionStartTime := t, recentCharacters := [], charFrequencyCounts := []\<rparr>,
           Some ''[STREAM_START]'')"
    by (intro start_second) simp_all
  show "snd (decodeAudio c s d r t n) = Some ''[STREAM_START]''"
    and "isReceivingMessage (fst (decodeAudio c s d r t n))"
    and "messageBuffer (fst (decodeAudio c s d r t n)) = []"
    and "transmissionStartTime (fst (decodeAudio c s d r t n)) = t"
    and "recentCharacters (fst (decodeAudio c s d r t n)) = []"
    and "startMarkerDetectionCount (fst (decodeAudio c s d r t n)) = 0"
    by (simp_all add: e)
next
  assume a: "passesChecks c s d r t \<and> \<not> matchesStartMarker c d r"
  with assms idle_reset [of s c d r t n]
  show "snd (decodeAudio c s d r t n) = None"
    and "\<not> isReceivingMessage (fst (decodeAudio c s d r t n))"
    and "startMarkerDetectionCount (fst (decodeAudio c s d r t n)) = 0"
    by simp_all
qed

theorem decodeAudio_start_marker_witness:
  "\<not> isReceivingMessage oneStartHit
   \<and> passesChecks whale oneStartHit startSnapshot 16000 1400
   \<and> matchesStartMarker whale startSnapshot 16000
   \<and> 1 \<le> startMarkerDetectionCount oneStartHit
   \<and> runDecoder whale initialDecoder
        [DecodeAudio startSnapshot 16000 1000 1000, DecodeAudio startSnapshot 16000 1400 1400]
      = (receiving, [None, Some ''[STREAM_START]''])
   \<and> isReceivingMessage receiving"
proof -
  have 1: "\<not> isReceivingMessage oneStartHit" and 2: "1 \<le> startMarkerDetectionCount oneStartHit"
    by (simp_all add: oneStartHit_eq initialDecoder_def)
  have 3: "passesChecks whale oneStartHit startSnapshot 16000 1400"
    by (simp add: passesChecks_def snapshot_peaks snapshot_frequencies whale_consts
        MINIMUM_VALID_FREQUENCY_def MAXIMUM_VALID_FREQUENCY_def)
       (simp add: oneStartHit_eq initialDecoder_def)
  have 4: "matchesStartMarker whale startSnapshot 16000"
    by (simp add: matchesStartMarker_def snapshot_peaks snapshot_frequencies whale_consts)
  have 5: "decodeAudio whale initialDecoder startSnapshot 16000 1000 1000 = (oneStartHit, None)"
    by (simp add: oneStartHit_eq decodeAudio_def snapshot_peaks snapshot_frequencies
        whale_consts initialDecoder_def MINIMUM_VALID_FREQUENCY_def MAXIMUM_VALID_FREQUENCY_def)
  from decodeAudio_start_marker [OF 1, of whale startSnapshot 16000 1400 1400] 2 3 4
  have "snd (decodeAudio whale oneStartHit startSnapshot 16000 1400 1400) = Some ''[STREAM_START]''"
    and "isReceivingMessage (fst (decodeAudio whale oneStartHit startSnapshot 16000 1400 1400))"
    by simp_all
  then have "decodeAudio whale oneStartHit startSnapshot 16000 1400 1400
               = (receiving, Some ''[STREAM_START]'')"
    and "isReceivingMessage receiving"
    by (simp_all add: receiving_def prod_eq_iff)
  with 1 2 3 4 5 show ?thesis by simp
qed

subsection \<open>Duplicate suppression\<close>





lemma shouldAddCharacter_consecutive:
  assumes "recent = filter (\<lambda>entry. now - snd entry < RECENT_WINDOW c) (recentCharacters s)"
    and "consecutiveLoop (take (min (length recent) 4) (rev recent)) ch 0"
  shows "fst (shouldAddCharacter c s ch now) = False"
  using assms by (simp add: shouldAddCharacter_def Let_def)

lemma consecutiveLoop_three:
  assumes "ch \<noteq> CHR '' ''" and "\<not> isCommonRepeatingChar ch" and "3 \<le> k"
  shows "consecutiveLoop (take k ((ch, t3) # (ch, t2) # (ch, t1) # rest)) ch 0"
proof -
  from assms(3) obtain k' where "k = Suc (Suc (Suc k'))"
    by (metis Suc_le_D eval_nat_numeral(3) Suc_le_mono numeral_2_eq_2)
  with assms(1,2) show ?thesis by simp
qed

text \<open>
  C3, as stated, fails. In the fast module the letter B, accepted at 0 ms and at 150 ms, is
  accepted a third time at 300 ms: the last two retained entries are B, and B is neither the
  space nor in the allow-list.
\<close>

theorem shouldAddCharacter_third_repeat_counterexample:
  "recentCharacters twoB = [(CHR ''B'', 0), (CHR ''B'', 150)]
   \<and> filter (\<lambda>entry. 300 - snd entry < RECENT_WINDOW fast) (recentCharacters twoB)
       = recentCharacters twoB
   \<and> CHR ''B'' \<noteq> CHR '' '' \<and> \<not> isCommonRepeatingChar CHR ''B''
   \<and> fst (shouldAddCharacter fast twoB CHR ''B'' 300) = True"
  by (simp add: twoB_eq shouldAddCharacter_def fast_consts initialDecoder_def
      isCommonRepeatingChar_def matchesPunctuation_def)

text \<open>
  C3, amended. \<^verbatim>\<open>shouldAddCharacter\<close> rejects a character that would become a fourth or
  later consecutive repeat: when the last three retained entries of the recent-character
  window equal \<open>ch\<close>, and \<open>ch\<close> is neither the space nor in the allow-list, the call returns
  \<^verbatim>\<open>false\<close>.
\<close>

theorem shouldAddCharacter_fourth_repeat:
  assumes "filter (\<lambda>entry. now - snd entry < RECENT_WINDOW c) (recentCharacters s)
             = older @ [(ch, t1), (ch, t2), (ch, t3)]"
    and "ch \<noteq> CHR '' ''" and "\<not> isCommonRepeatingChar ch"
  shows "fst (shouldAddCharacter c s ch now) = False"
proof -
  let ?recent = "older @ [(ch, t1), (ch, t2), (ch, t3)]"
  have r: "rev ?recent = (ch, t3) # (ch, t2) # (ch, t1) # rev older" by simp
  have "3 \<le> min (length ?recent) 4" by simp
  with assms(2,3) have "consecutiveLoop (take (min (length ?recent) 4) (rev ?recent)) ch 0"
    unfolding r by (rule consecutiveLoop_three)
  with assms(1) [symmetric] show ?thesis
    by (rule shouldAddCharacter_consecutive)
qed

theorem shouldAddCharacter_fourth_repeat_witness:
  "filter (\<lambda>entry. 900 - snd entry < RECENT_WINDOW fast)
     (recentCharacters (initialDecoder\<lparr>recentCharacters :=
         [(CHR ''X'', 400), (CHR ''B'', 500), (CHR ''B'', 630), (CHR ''B'', 760)]\<rparr>))
     = [] @ [(CHR ''B'', 500), (CHR ''B'', 630), (CHR ''B'', 760)]
   \<and> CHR ''B'' \<noteq> CHR '' '' \<and> \<not> isCommonRepeatingChar CHR ''B''
   \<and> fst (shouldAddCharacter fast (initialDecoder\<lparr>recentCharacters :=
         [(CHR ''X'', 400), (CHR ''B'', 500), (CHR ''B'', 630), (CHR ''B'', 760)]\<rparr>)
         CHR ''B'' 900) = False"
proof -
  have 1: "filter (\<lambda>entry. 900 - snd entry < RECENT_WINDOW fast)
     (recentCharacters (initialDecoder\<lparr>recentCharacters :=
         [(CHR ''X'', 400), (CHR ''B'', 500), (CHR ''B'', 630), (CHR ''B'', 760)]\<rparr>))
     = [] @ [(CHR ''B'', 500), (CHR ''B'', 630), (CHR ''B'', 760)]"
    by (simp add: fast_consts)
  have 2: "CHR ''B'' \<noteq> CHR '' ''" and 3: "\<not> isCommonRepeatingChar CHR ''B''"
    by (simp_all add: isCommonRepeatingChar_def)
  from shouldAddCharacter_fourth_repeat [OF 1 2 3] 1 2 3 show ?thesis by simp
qed









lemma frequencyToChar_whale_markers:
  "frequencyToChar whale 800 = None" "frequencyToChar whale 1000 = None"
  by (simp_all add: frequencyToChar_def whale_consts objectEntries_def
      CHAR_FREQUENCIES_whale_def isArrayIndexKey_def)




subsection \<open>The buffer invariant\<close>

lemma shouldAddCharacter_frame:
  "isReceivingMessage (snd (shouldAddCharacter c s ch now)) = isReceivingMessage s"
  "messageBuffer (snd (shouldAddCharacter c s ch now)) = messageBuffer s"
  by (simp_all add: shouldAddCharacter_def Let_def)

lemma decodeAudio_buffer:
  assumes "messageBuffer s \<noteq> [] \<longrightarrow> isReceivingMessage s"
  shows "messageBuffer (fst (decodeAudio c s d r t n)) \<noteq> []
           \<longrightarrow> isReceivingMessage (fst (decodeAudio c s d r t n))"
  using assms shouldAddCharacter_frame(1) [of c _ _ n]
  by (auto simp add: decodeAudio_def Let_def case_prod_beta split: if_splits option.splits)

lemma decodeAudio_flip:
  assumes "isReceivingMessage s" and "\<not> isReceivingMessage (fst (decodeAudio c s d r t n))"
  shows "messageBuffer (fst (decodeAudio c s d r t n)) = []"
  using assms shouldAddCharacter_frame(1) [of c _ _ n]
  by (auto simp add: decodeAudio_def Let_def case_prod_beta split: if_splits option.splits)

lemma applyCall_buffer:
  assumes "messageBuffer s \<noteq> [] \<longrightarrow> isReceivingMessage s"
  shows "messageBuffer (fst (applyCall c s call)) \<noteq> []
           \<longrightarrow> isReceivingMessage (fst (applyCall c s call))"
proof (cases call)
  case (DecodeAudio d r t n)
  with decodeAudio_buffer [OF assms] show ?thesis by simp
next
  case ResetDecoder
  then show ?thesis by (simp add: resetDecoder_def)
qed

lemma runDecoder_buffer:
  assumes "messageBuffer s \<noteq> [] \<longrightarrow> isReceivingMessage s"
  shows "messageBuffer (fst (runDecoder c s calls)) \<noteq> []
           \<longrightarrow> isReceivingMessage (fst (runDecoder c s calls))"
  using assms
proof (induction calls arbitrary: s)
  case Nil
  then show ?case by simp
next
  case (Cons call calls)
  from Cons.IH [OF applyCall_buffer [OF Cons.prems, of c call]]
  show ?case by (simp add: case_prod_beta)
qed

text \<open>
  C9. In every session that calls of \<^verbatim>\<open>decodeAudio\<close> and \<^verbatim>\<open>resetDecoder\<close> reach from the
  initial one, the buffer is non-empty only while the decoder receives; and a call that
  takes any session from receiving to not receiving leaves the buffer empty.
\<close>

theorem decoder_buffer_invariant:
  "(messageBuffer (fst (runDecoder c initialDecoder calls)) \<noteq> []
      \<longrightarrow> isReceivingMessage (fst (runDecoder c initialDecoder calls)))
   \<and> (isReceivingMessage s \<and> \<not> isReceivingMessage (fst (applyCall c s call))
      \<longrightarrow> messageBuffer (fst (applyCall c s call)) = [])"
proof
  show "messageBuffer (fst (runDecoder c initialDecoder calls)) \<noteq> []
      \<longrightarrow> isReceivingMessage (fst (runDecoder c initialDecoder calls))"
    by (rule runDecoder_buffer) (simp add: initialDecoder_def)
  show "isReceivingMessage s \<and> \<not> isReceivingMessage (fst (applyCall c s call))
      \<longrightarrow> messageBuffer (fst (applyCall c s call)) = []"
  proof (cases call)
    case (DecodeAudio d r t n)
    with decodeAudio_flip [of s c d r t n] show ?thesis by simp
  next
    case ResetDecoder
    then show ?thesis by (simp add: resetDecoder_def)
  qed
qed

theorem decoder_buffer_invariant_witness:
  "fst (runDecoder whale initialDecoder
          [DecodeAudio startSnapshot 16000 1000 1000, DecodeAudio startSnapshot 16000 1400 1400,
           DecodeAudio letterASnapshot 16000 3000 3000]) = receivedA
   \<and> messageBuffer receivedA \<noteq> []
   \<and> isReceivingMessage receivedA
   \<and> \<not> isReceivingMessage (fst (applyCall whale receivedA
                                    (DecodeAudio letterASnapshot 16000 60000 60000)))
   \<and> messageBuffer (fst (applyCall whale receivedA
                            (DecodeAudio letterASnapshot 16000 60000 60000))) = []"
proof -
  let ?calls = "[DecodeAudio startSnapshot 16000 1000 1000,
                 DecodeAudio startSnapshot 16000 1400 1400,
                 DecodeAudio letterASnapshot 16000 3000 3000]"
  let ?call = "DecodeAudio letterASnapshot 16000 60000 60000"
  have 1: "fst (runDecoder whale initialDecoder ?calls) = receivedA"
    by (simp add: case_prod_beta oneStartHit_def [symmetric] receiving_def [symmetric]
        receivedA_def [symmetric])
  have 2: "messageBuffer receivedA \<noteq> []"
    by (simp add: receivedA_eq initialDecoder_def)
  have 3: "\<not> isReceivingMessage (fst (applyCall whale receivedA ?call))"
    by (simp add: decodeAudio_def snapshot_peaks snapshot_frequencies whale_consts
        MINIMUM_VALID_FREQUENCY_def MAXIMUM_VALID_FREQUENCY_def Let_def)
       (simp add: receivedA_eq initialDecoder_def)
  from decoder_buffer_invariant [of whale ?calls receivedA ?call] 1 2 3
  show ?thesis by simp
qed

subsection \<open>An unusable audio backend\<close>

lemma whale_encoder_consts:
  "START_MARKER_DURATION whale = 3 / 2" "END_MARKER_DURATION whale = 3 / 2"
  "CHARACTER_DURATION whale = 12 / 10" "CHARACTER_GAP whale = 1 / 2" "VOLUME whale = 85 / 100"
  "USE_PARALLEL_TONES whale = False" "PAUSE_CONTROL whale = True"
  "playToneEnvelope whale = playToneEnvelope_whale"
  by (simp_all add: whale_def)

lemma fast_encoder_consts:
  "START_MARKER_DURATION fast = 12 / 100" "END_MARKER_DURATION fast = 12 / 100"
  "CHARACTER_DURATION fast = 7 / 100" "CHARACTER_GAP fast = 3 / 100" "VOLUME fast = 1"
  "USE_PARALLEL_TONES fast = True" "PAUSE_CONTROL fast = False"
  "PARALLEL_TONE_OFFSET fast = 35" "PARALLEL_TONE_VOLUME fast = 75 / 100"
  "playToneEnvelope fast = playToneEnvelope_fast"
  by (simp_all add: fast_def)

lemma ensureAudioContextReady_unusable:
  "unusable a \<Longrightarrow> ensureAudioContextReady a = (False, a)"
  by (auto simp add: unusable_def ensureAudioContextReady_def)

lemma ensureAudioContextReady_ready:
  "ready a \<Longrightarrow> ensureAudioContextReady a = (True, a\<lparr>contextState := Running\<rparr>)"
  by (auto simp add: ready_def ensureAudioContextReady_def)

text \<open>
  C8. On an unusable audio backend \<^verbatim>\<open>encodeText\<close>, in both modules and for every text,
  returns at once: it schedules no tone, creates no node, and its promise is resolved, not
  left pending.
\<close>

theorem encodeText_unusable:
  assumes "unusable a"
  shows "encodeText c tx a text =
           Some \<lparr>transmitterAfter = resetPauseState c tx, contextAfter = a, schedule = [],
                  completion = ResolvedAtOnce\<rparr>"
  using assms by (simp add: encodeText_def ensureAudioContextReady_unusable)

theorem encodeText_unusable_witness:
  "unusable (freshContext\<lparr>contextState := Suspended, resumeOutcome := ResumeRejects\<rparr>)
   \<and> map_option schedule
       (encodeText fast initialTransmitter
          (freshContext\<lparr>contextState := Suspended, resumeOutcome := ResumeRejects\<rparr>) ''HI'')
       = Some []
   \<and> map_option completion
       (encodeText fast initialTransmitter
          (freshContext\<lparr>contextState := Suspended, resumeOutcome := ResumeRejects\<rparr>) ''HI'')
       = Some ResolvedAtOnce"
proof -
  have "unusable (freshContext\<lparr>contextState := Suspended, resumeOutcome := ResumeRejects\<rparr>)"
    by (simp add: unusable_def)
  with encodeText_unusable [of "freshContext\<lparr>contextState := Suspended,
      resumeOutcome := ResumeRejects\<rparr>" fast initialTransmitter "''HI''"]
  show ?thesis by simp
qed

subsection \<open>Pause and resume\<close>

lemma cancel_muted:
  "cancelScheduledValues 0 (cancelScheduledValues 0 events @ [SetValueAtTime 0 0])
     = cancelScheduledValues 0 events"
  by (simp add: cancelScheduledValues_def)

lemma automation_muteGain:
  "automation (muteGain g a) g' =
     (if g' = g then cancelScheduledValues 0 (automation a g) @ [SetValueAtTime 0 0]
      else automation a g')"
  by (simp add: muteGain_def automation_def)

lemma automation_fold_muteGain:
  "automation (fold (\<lambda>entry. muteGain (gainNode entry)) entries a) g =
     (if g \<in> gainNode ` set entries
      then cancelScheduledValues 0 (automation a g) @ [SetValueAtTime 0 0]
      else automation a g)"
proof (induction entries arbitrary: a)
  case Nil
  then show ?case by simp
next
  case (Cons entry entries)
  show ?case
    by (simp add: Cons.IH automation_muteGain cancel_muted)
qed

lemma charToFrequency_whale_A: "charToFrequency whale CHR ''A'' = 500"
  using roundtrip_whale [of "CHR ''A''" 500] by (simp add: CHAR_FREQUENCIES_whale_def)

lemma toUpperCase_A: "toUpperCase CHR ''A'' = CHR ''A''"
  by (simp add: toUpperCase_def)

lemma encodeText_whale_A:
  "\<exists>a. encodeText whale initialTransmitter freshContext ''A'' =
     Some \<lparr>transmitterAfter =
              \<lparr>isTransmissionPaused = False, pauseStartTime = 0, totalPausedDuration = 0,
               activeOscillators = [\<lparr>oscillator = Some 2, gainNode = 3, stopTime = 319 / 25\<rparr>]\<rparr>,
            contextAfter = a,
            schedule =
              [\<lparr>toneFrequency = 1000, toneStart = 1003 / 100, toneStop = 1153 / 100,
                toneOscillator = 0, toneGainNode = 1, toneParallel = None\<rparr>,
               \<lparr>toneFrequency = 500, toneStart = 289 / 25, toneStop = 319 / 25,
                toneOscillator = 2, toneGainNode = 3, toneParallel = None\<rparr>,
               \<lparr>toneFrequency = 800, toneStart = 1329 / 100, toneStop = 1479 / 100,
                toneOscillator = 4, toneGainNode = 5, toneParallel = None\<rparr>],
            completion = ResolvedAfter (10059 / 2)\<rparr>
      \<and> automation a 3 = characterEnvelope whale (85 / 100) (289 / 25)"
  by (simp add: encodeText_def resetPauseState_def initialTransmitter_def freshContext_def
      ensureAudioContextReady_def playTone_def createOscillator_def createGain_def
      scheduleGain_def automation_def trackOscillator_def whale_consts whale_encoder_consts
      charToFrequency_whale_A toUpperCase_A Let_def)

lemma transmissionOfA_facts:
  "encodeText whale initialTransmitter freshContext ''A'' = Some transmissionOfA"
  "isTransmissionPaused (transmitterAfter transmissionOfA) = False"
  "activeOscillators (transmitterAfter transmissionOfA)
     = [\<lparr>oscillator = Some 2, gainNode = 3, stopTime = 319 / 25\<rparr>]"
  "automation (contextAfter transmissionOfA) 3 = characterEnvelope whale (85 / 100) (289 / 25)"
  "length (schedule transmissionOfA) = 3"
  using encodeText_whale_A by (auto simp add: transmissionOfA_def)

text \<open>
  C7, as stated, fails. While the whale transmission of \<^verbatim>\<open>A\<close> is under way and not paused,
  the list of active oscillators holds the oscillator of the letter, and after
  \<^verbatim>\<open>pauseTransmission\<close> it still holds it.
\<close>

theorem pauseTransmission_counterexample:
  "encodeText whale initialTransmitter freshContext ''A'' = Some transmissionOfA
   \<and> \<not> isTransmissionPaused (transmitterAfter transmissionOfA)
   \<and> activeOscillators
        (fst (pauseTransmission (transmitterAfter transmissionOfA)
                (contextAfter transmissionOfA) 2000))
       = [\<lparr>oscillator = Some 2, gainNode = 3, stopTime = 319 / 25\<rparr>]"
  by (simp add: transmissionOfA_facts pauseTransmission_def)

text \<open>
  C7, amended. When not already paused, \<^verbatim>\<open>pauseTransmission\<close> sets the pause flag, records
  the pause start time and mutes every tracked active oscillator: the automation of its gain
  node is cut back to the events before time 0, followed by the value 0 set at time 0. It
  leaves the list of active oscillators as it is; the list is emptied by the
  \<^verbatim>\<open>resumeTransmission\<close> that ends the pause.
\<close>

theorem pauseTransmission_mutes:
  assumes "\<not> isTransmissionPaused tx"
  shows "isTransmissionPaused (fst (pauseTransmission tx a now))
       \<and> pauseStartTime (fst (pauseTransmission tx a now)) = now
       \<and> activeOscillators (fst (pauseTransmission tx a now)) = activeOscillators tx
       \<and> (\<forall>entry \<in> set (activeOscillators tx).
             automation (snd (pauseTransmission tx a now)) (gainNode entry)
               = cancelScheduledValues 0 (automation a (gainNode entry)) @ [SetValueAtTime 0 0])
       \<and> activeOscillators (resumeTransmission (fst (pauseTransmission tx a now)) later) = []"
  using assms
  by (simp add: pauseTransmission_def resumeTransmission_def automation_fold_muteGain)

theorem pauseTransmission_mutes_witness:
  "\<not> isTransmissionPaused (transmitterAfter transmissionOfA)
   \<and> \<lparr>oscillator = Some 2, gainNode = 3, stopTime = 319 / 25\<rparr>
        \<in> set (activeOscillators (transmitterAfter transmissionOfA))
   \<and> automation (contextAfter transmissionOfA) 3
        = [SetValueAtTime 0 (289 / 25), LinearRampToValueAtTime (85 / 100) (2313 / 200),
           SetValueAtTime (85 / 100) (2551 / 200), LinearRampToValueAtTime 0 (319 / 25)]
   \<and> automation (snd (pauseTransmission (transmitterAfter transmissionOfA)
                         (contextAfter transmissionOfA) 2000)) 3
        = [SetValueAtTime 0 0]
   \<and> activeOscillators (resumeTransmission
        (fst (pauseTransmission (transmitterAfter transmissionOfA)
                (contextAfter transmissionOfA) 2000)) 3000) = []"
proof -
  have 1: "\<not> isTransmissionPaused (transmitterAfter transmissionOfA)"
    by (simp add: transmissionOfA_facts)
  have 2: "automation (contextAfter transmissionOfA) 3
        = [SetValueAtTime 0 (289 / 25), LinearRampToValueAtTime (85 / 100) (2313 / 200),
           SetValueAtTime (85 / 100) (2551 / 200), LinearRampToValueAtTime 0 (319 / 25)]"
    by (simp add: transmissionOfA_facts characterEnvelope_def whale_encoder_consts)
  from pauseTransmission_mutes [OF 1, of "contextAfter transmissionOfA" 2000 3000] 1 2
  show ?thesis
    by (simp add: transmissionOfA_facts cancelScheduledValues_def)
qed

subsection \<open>The scheduling loop\<close>

lemma trackOscillator_frame [simp]:
  "isTransmissionPaused (trackOscillator c entry tx) = isTransmissionPaused tx"
  "totalPausedDuration (trackOscillator c entry tx) = totalPausedDuration tx"
  "pauseStartTime (trackOscillator c entry tx) = pauseStartTime tx"
  by (simp_all add: trackOscillator_def)

lemma scheduleNodes_not_blocked:
  assumes "\<not> (PAUSE_CONTROL c \<and> isTransmissionPaused tx)"
  shows "scheduleNodes c tx a t nodes \<noteq> None"
  using assms
proof (induction nodes arbitrary: tx a t)
  case Nil
  then show ?case by simp
next
  case (Cons node nodes)
  then show ?case
    by (auto simp add: Let_def case_prod_beta split: option.splits)
qed

lemma scheduleNodes_tones:
  assumes "scheduleNodes c tx a t nodes = Some (tx', a', t', tones)"
    and "0 \<le> CHARACTER_DURATION c" and "0 \<le> CHARACTER_GAP c"
  shows "map toneFrequency tones = map nodeFrequency nodes
       \<and> t \<le> t'
       \<and> sorted_wrt (\<lambda>x y. toneStop x + CHARACTER_GAP c \<le> toneStart y) tones
       \<and> (\<forall>x \<in> set tones. t \<le> toneStart x
              \<and> toneStop x = toneStart x + CHARACTER_DURATION c
              \<and> toneStop x + CHARACTER_GAP c \<le> t')"
  using assms(1)
proof (induction nodes arbitrary: tx a t tones)
  case Nil
  then show ?case by simp
next
  case (Cons node nodes)
  from Cons.prems obtain tx2 a2 first rest where
    rec: "scheduleNodes c tx2 a2 (t + (CHARACTER_DURATION c + CHARACTER_GAP c)) nodes
            = Some (tx', a', t', rest)"
    and tones: "tones = first # rest"
    and first: "toneFrequency first = nodeFrequency node" "toneStart first = t"
      "toneStop first = t + CHARACTER_DURATION c"
    by (auto simp add: Let_def case_prod_beta split: if_splits option.splits)
  note IH = Cons.IH [OF rec]
  have 1: "map toneFrequency tones = map nodeFrequency (node # nodes)"
    using IH by (simp add: tones first)
  have 2: "t \<le> t'"
    using IH assms(2,3) by simp
  have 3: "\<forall>y \<in> set rest. toneStop first + CHARACTER_GAP c \<le> toneStart y"
    using IH by (simp add: first add.assoc)
  have 4: "\<forall>x \<in> set rest. t \<le> toneStart x"
  proof
    fix x assume "x \<in> set rest"
    with IH have "t + (CHARACTER_DURATION c + CHARACTER_GAP c) \<le> toneStart x" by simp
    with assms(2,3) show "t \<le> toneStart x" by simp
  qed
  have 5: "toneStop first + CHARACTER_GAP c \<le> t'"
    using IH by (simp add: first add.assoc)
  from 1 2 3 4 5 IH show ?case
    by (auto simp add: tones first)
qed

lemma scheduleNodes_active:
  assumes "scheduleNodes c tx a t nodes = Some (tx', a', t', tones)"
    and "PAUSE_CONTROL c" and "\<not> USE_PARALLEL_TONES c"
  shows "activeOscillators tx' = activeOscillators tx
           @ map (\<lambda>x. \<lparr>oscillator = Some (toneOscillator x), gainNode = toneGainNode x,
                       stopTime = toneStop x\<rparr>) tones
       \<and> isTransmissionPaused tx' = isTransmissionPaused tx
       \<and> totalPausedDuration tx' = totalPausedDuration tx"
  using assms(1)
proof (induction nodes arbitrary: tx a t tones)
  case Nil
  then show ?case by simp
next
  case (Cons node nodes)
  let ?entry = "\<lparr>oscillator = Some (nodeOscillator node), gainNode = nodeGainNode node,
                 stopTime = t + CHARACTER_DURATION c\<rparr>"
  from Cons.prems assms(2,3) obtain a2 rest where
    rec: "scheduleNodes c (trackOscillator c ?entry tx) a2
            (t + (CHARACTER_DURATION c + CHARACTER_GAP c)) nodes = Some (tx', a', t', rest)"
    and tones: "tones = \<lparr>toneFrequency = nodeFrequency node, toneStart = t,
                  toneStop = t + CHARACTER_DURATION c, toneOscillator = nodeOscillator node,
                  toneGainNode = nodeGainNode node, toneParallel = None\<rparr> # rest"
    by (auto simp add: Let_def case_prod_beta split: if_splits option.splits)
  from Cons.IH [OF rec] assms(2) tones show ?case
    by (simp add: trackOscillator_def)
qed

subsection \<open>The reset of the pause state\<close>

lemma encodeText_completes:
  assumes "PAUSE_CONTROL c" and "\<not> USE_PARALLEL_TONES c"
  shows "\<exists>r. encodeText c tx a text = Some r
           \<and> isTransmissionPaused (transmitterAfter r) = False
           \<and> totalPausedDuration (transmitterAfter r) = 0
           \<and> gainNode ` set (activeOscillators (transmitterAfter r))
                \<subseteq> toneGainNode ` set (schedule r)"
proof (cases "fst (ensureAudioContextReady a)")
  case False
  with assms show ?thesis
    by (simp add: encodeText_def case_prod_beta resetPauseState_def)
next
  case True
  let ?tx0 = "resetPauseState c tx"
  let ?a0 = "snd (ensureAudioContextReady a)"
  let ?start = "playTone c ?a0 (START_FREQUENCY c) (START_MARKER_DURATION c)
                  (contextTime ?a0 + 3 / 100) (VOLUME c)"
  let ?nodes = "createNodes c (fst (snd ?start)) (map toUpperCase text)"
  have tx0: "isTransmissionPaused ?tx0 = False" "totalPausedDuration ?tx0 = 0"
    "activeOscillators ?tx0 = []"
    using assms(1) by (simp_all add: resetPauseState_def)
  then have "scheduleNodes c ?tx0 (snd ?nodes) (fst ?start + 3 / 100) (fst ?nodes) \<noteq> None"
    by (intro scheduleNodes_not_blocked) simp
  then obtain tx1 a3 t4 tones where
    loop: "scheduleNodes c ?tx0 (snd ?nodes) (fst ?start + 3 / 100) (fst ?nodes)
             = Some (tx1, a3, t4, tones)"
    by (cases "scheduleNodes c ?tx0 (snd ?nodes) (fst ?start + 3 / 100) (fst ?nodes)") auto
  from scheduleNodes_active [OF loop assms] tx0
  have tx1: "isTransmissionPaused tx1 = False" "totalPausedDuration tx1 = 0"
    "gainNode ` set (activeOscillators tx1) = toneGainNode ` set tones"
    by (simp_all add: image_image)
  from True loop tx1 show ?thesis
    by (auto simp add: encodeText_def case_prod_beta Let_def)
qed

text \<open>
  C10. In the whale module \<^verbatim>\<open>encodeText\<close> starts from a reset pause state: the pause flag
  is off, the total paused duration is 0 and no oscillator is tracked. The call gives the
  same result whatever these three were before, so a pause left over from an earlier
  transmission neither blocks nor mutes the new one: the call completes,
  \<^verbatim>\<open>getTransmissionPauseState\<close> is false and \<^verbatim>\<open>getTotalPausedDuration\<close> is 0 after it, the
  tracked oscillators are those of tones of this call, and a pause from \<open>began\<close> to \<open>ended\<close>
  in the new transmission makes \<^verbatim>\<open>getTotalPausedDuration\<close> report \<open>ended - began\<close>.
\<close>

theorem encodeText_resets_pause_state:
  "isTransmissionPaused (resetPauseState whale tx) = False
   \<and> totalPausedDuration (resetPauseState whale tx) = 0
   \<and> activeOscillators (resetPauseState whale tx) = []
   \<and> encodeText whale
        (tx\<lparr>isTransmissionPaused := p, totalPausedDuration := d, activeOscillators := os\<rparr>)
        a message = encodeText whale tx a message
   \<and> (\<exists>r. encodeText whale tx a message = Some r
          \<and> getTransmissionPauseState (transmitterAfter r) = False
          \<and> getTotalPausedDuration (transmitterAfter r) = 0
          \<and> gainNode ` set (activeOscillators (transmitterAfter r))
               \<subseteq> toneGainNode ` set (schedule r)
          \<and> getTotalPausedDuration
               (resumeTransmission
                  (fst (pauseTransmission (transmitterAfter r) (contextAfter r) began)) ended)
              = ended - began)"
proof -
  have "resetPauseState whale
          (tx\<lparr>isTransmissionPaused := p, totalPausedDuration := d, activeOscillators := os\<rparr>)
        = resetPauseState whale tx"
    by (simp add: resetPauseState_def whale_encoder_consts)
  then have "encodeText whale
        (tx\<lparr>isTransmissionPaused := p, totalPausedDuration := d, activeOscillators := os\<rparr>)
        a message = encodeText whale tx a message"
    by (simp add: encodeText_def)
  moreover have "\<exists>r. encodeText whale tx a message = Some r
          \<and> getTransmissionPauseState (transmitterAfter r) = False
          \<and> getTotalPausedDuration (transmitterAfter r) = 0
          \<and> gainNode ` set (activeOscillators (transmitterAfter r))
               \<subseteq> toneGainNode ` set (schedule r)
          \<and> getTotalPausedDuration
               (resumeTransmission
                  (fst (pauseTransmission (transmitterAfter r) (contextAfter r) began)) ended)
              = ended - began"
  proof -
    from encodeText_completes [of whale tx a message]
    obtain r where r: "encodeText whale tx a message = Some r"
      and flag: "isTransmissionPaused (transmitterAfter r) = False"
      and total: "totalPausedDuration (transmitterAfter r) = 0"
      and tracked: "gainNode ` set (activeOscillators (transmitterAfter r))
                      \<subseteq> toneGainNode ` set (schedule r)"
      by (auto simp add: whale_encoder_consts)
    from flag total
    have "totalPausedDuration
            (resumeTransmission
               (fst (pauseTransmission (transmitterAfter r) (contextAfter r) began)) ended)
          = ended - began"
      by (simp add: resumeTransmission_def pauseTransmission_def)
    with r flag total tracked show ?thesis
      unfolding getTransmissionPauseState_def getTotalPausedDuration_def by blast
  qed
  ultimately show ?thesis
    by (simp add: resetPauseState_def whale_encoder_consts)
qed

theorem encodeText_resets_pause_state_witness:
  "encodeText whale
     (initialTransmitter\<lparr>isTransmissionPaused := True, totalPausedDuration := 700,
        activeOscillators := [\<lparr>oscillator = Some 40, gainNode = 41, stopTime = 5\<rparr>]\<rparr>)
     freshContext ''A'' = Some transmissionOfA
   \<and> getTransmissionPauseState (transmitterAfter transmissionOfA) = False
   \<and> getTotalPausedDuration (transmitterAfter transmissionOfA) = 0
   \<and> activeOscillators (transmitterAfter transmissionOfA)
        = [\<lparr>oscillator = Some 2, gainNode = 3, stopTime = 319 / 25\<rparr>]
   \<and> getTotalPausedDuration
        (resumeTransmission
           (fst (pauseTransmission (transmitterAfter transmissionOfA)
                   (contextAfter transmissionOfA) 2000)) 3000) = 1000"
proof -
  from encodeText_resets_pause_state [where tx = initialTransmitter and p = True
      and d = 700 and os = "[\<lparr>oscillator = Some 40, gainNode = 41, stopTime = 5\<rparr>]"
      and a = freshContext and message = "''A''" and began = 2000 and ended = 3000]
  have "encodeText whale
     (initialTransmitter\<lparr>isTransmissionPaused := True, totalPausedDuration := 700,
        activeOscillators := [\<lparr>oscillator = Some 40, gainNode = 41, stopTime = 5\<rparr>]\<rparr>)
     freshContext ''A'' = Some transmissionOfA"
    and "getTransmissionPauseState (transmitterAfter transmissionOfA) = False"
    and "getTotalPausedDuration (transmitterAfter transmissionOfA) = 0"
    and "getTotalPausedDuration
        (resumeTransmission
           (fst (pauseTransmission (transmitterAfter transmissionOfA)
                   (contextAfter transmissionOfA) 2000)) 3000) = 1000"
    by (simp_all add: transmissionOfA_facts)
  then show ?thesis by (simp add: transmissionOfA_facts)
qed

subsection \<open>The schedule of a transmission\<close>

lemma toUpperCase_idem: "toUpperCase (toUpperCase ch) = toUpperCase ch"
proof (cases "97 \<le> (of_char ch :: nat) \<and> (of_char ch :: nat) \<le> 122")
  case True
  let ?u = "char_of ((of_char ch :: nat) - 32) :: char"
  from True have "(of_char ch :: nat) - 32 < 256" by linarith
  then have u: "(of_char ?u :: nat) = of_char ch - 32"
    by (simp only: of_char_of mod_less)
  from True have "\<not> (97 \<le> (of_char ch :: nat) - 32 \<and> (of_char ch :: nat) - 32 \<le> 122)"
    by linarith
  then have "toUpperCase ?u = ?u"
    unfolding toUpperCase_def Let_def u by (rule if_not_P)
  moreover from True have "toUpperCase ch = ?u"
    unfolding toUpperCase_def Let_def by (rule if_P)
  ultimately show ?thesis by simp
next
  case False
  then have "toUpperCase ch = ch"
    unfolding toUpperCase_def Let_def by (rule if_not_P)
  then show ?thesis by simp
qed

lemma charToFrequency_toUpperCase:
  "charToFrequency c (toUpperCase ch) = charToFrequency c ch"
  by (simp add: charToFrequency_def toUpperCase_idem)

lemma playTone_marker:
  assumes "contextState a = Running"
    and "frequency = START_FREQUENCY c \<or> frequency = END_FREQUENCY c"
  shows "\<exists>a' osc gn. playTone c a frequency duration t volume =
            (t + duration, a',
             [\<lparr>toneFrequency = frequency, toneStart = t, toneStop = t + duration,
               toneOscillator = osc, toneGainNode = gn, toneParallel = None\<rparr>])
          \<and> contextState a' = Running"
  using assms
  by (auto simp add: playTone_def ensureAudioContextReady_def createOscillator_def
      createGain_def scheduleGain_def Let_def)

lemma createNodes_context:
  "contextState (snd (createNodes c a characters)) = contextState a"
  by (induction characters arbitrary: a)
     (simp_all add: Let_def case_prod_beta createOscillator_def createGain_def)

lemma createNodes_frequencies:
  assumes "list_all (supported c) characters"
  shows "map nodeFrequency (fst (createNodes c a characters))
           = map (charToFrequency c) characters"
  using assms
  by (induction characters arbitrary: a)
     (simp_all add: Let_def case_prod_beta supported_def)

lemma scheduleNodes_context:
  assumes "scheduleNodes c tx a t nodes = Some (tx', a', t', tones)"
  shows "contextState a' = contextState a"
  using assms
proof (induction nodes arbitrary: tx a t tones)
  case Nil
  then show ?case by simp
next
  case (Cons node nodes)
  from Cons.prems obtain tx2 a2 rest where
    rec: "scheduleNodes c tx2 a2 (t + (CHARACTER_DURATION c + CHARACTER_GAP c)) nodes
            = Some (tx', a', t', rest)"
    and a2: "contextState a2 = contextState a"
    by (auto simp add: Let_def case_prod_beta scheduleGain_def
        split: if_splits option.splits)
  from Cons.IH [OF rec] a2 show ?case by simp
qed

lemma createNodes_parallel:
  "list_all (\<lambda>n. (nodeOscillator2 n \<noteq> None) = USE_PARALLEL_TONES c
                 \<and> (nodeGainNode2 n \<noteq> None) = USE_PARALLEL_TONES c)
     (fst (createNodes c a characters))"
  by (induction characters arbitrary: a)
     (simp_all add: Let_def case_prod_beta)

lemma scheduleNodes_parallel:
  assumes "scheduleNodes c tx a t nodes = Some (tx', a', t', tones)"
    and "list_all (\<lambda>n. (nodeOscillator2 n \<noteq> None) = USE_PARALLEL_TONES c
                 \<and> (nodeGainNode2 n \<noteq> None) = USE_PARALLEL_TONES c) nodes"
  shows "map (\<lambda>x. map_option fst (toneParallel x)) tones
           = map (\<lambda>n. if USE_PARALLEL_TONES c
                       then Some (nodeFrequency n + PARALLEL_TONE_OFFSET c) else None) nodes"
  using assms
proof (induction nodes arbitrary: tx a t tones)
  case Nil
  then show ?case by simp
next
  case (Cons node nodes)
  from Cons.prems obtain tx2 a2 first rest where
    rec: "scheduleNodes c tx2 a2 (t + (CHARACTER_DURATION c + CHARACTER_GAP c)) nodes
            = Some (tx', a', t', rest)"
    and tones: "tones = first # rest"
    and first: "map_option fst (toneParallel first)
                  = (if USE_PARALLEL_TONES c
                     then Some (nodeFrequency node + PARALLEL_TONE_OFFSET c) else None)"
    by (auto simp add: Let_def case_prod_beta split: if_splits option.splits)
  from Cons.IH [OF rec] Cons.prems(2) show ?case
    by (simp add: tones first)
qed

lemma encodeText_ready:
  assumes "ready a" and "list_all (supported c) message"
    and "PAUSE_CONTROL c \<longrightarrow> \<not> isTransmissionPaused (resetPauseState c tx)"
    and "0 \<le> CHARACTER_DURATION c" and "0 \<le> CHARACTER_GAP c"
  shows "\<exists>r first middle final t0 t4.
           encodeText c tx a message = Some r
         \<and> schedule r = [first] @ middle @ [final]
         \<and> toneFrequency first = START_FREQUENCY c
         \<and> toneStart first = t0 + 3 / 100
         \<and> toneStop first = t0 + 3 / 100 + START_MARKER_DURATION c
         \<and> map toneFrequency middle = map (charToFrequency c) message
         \<and> toneParallel first = None \<and> toneParallel final = None
         \<and> map (\<lambda>x. map_option fst (toneParallel x)) middle
             = map (\<lambda>ch. if USE_PARALLEL_TONES c
                          then Some (charToFrequency c ch + PARALLEL_TONE_OFFSET c) else None)
                 message
         \<and> sorted_wrt (\<lambda>x y. toneStop x + CHARACTER_GAP c \<le> toneStart y) middle
         \<and> (\<forall>x \<in> set middle. toneStop first + 3 / 100 \<le> toneStart x
                \<and> toneStop x = toneStart x + CHARACTER_DURATION c
                \<and> toneStop x + CHARACTER_GAP c \<le> t4)
         \<and> toneStop first + 3 / 100 \<le> t4
         \<and> toneFrequency final = END_FREQUENCY c
         \<and> toneStart final = t4 + 3 / 100
         \<and> toneStop final = t4 + 3 / 100 + END_MARKER_DURATION c"
proof -
  let ?a0 = "a\<lparr>contextState := Running\<rparr>"
  let ?t0 = "contextTime a"
  let ?t1 = "?t0 + 3 / 100"
  have ens: "ensureAudioContextReady a = (True, ?a0)"
    using assms(1) by (rule ensureAudioContextReady_ready)
  from playTone_marker [of ?a0 "START_FREQUENCY c" c "START_MARKER_DURATION c" ?t1 "VOLUME c"]
  obtain t2 a1 osc1 gn1 where
    start: "playTone c ?a0 (START_FREQUENCY c) (START_MARKER_DURATION c) ?t1 (VOLUME c) =
              (t2, a1,
               [\<lparr>toneFrequency = START_FREQUENCY c, toneStart = ?t1,
                 toneStop = ?t1 + START_MARKER_DURATION c, toneOscillator = osc1,
                 toneGainNode = gn1, toneParallel = None\<rparr>])"
    and a1: "contextState a1 = Running"
    and t2: "t2 = ?t1 + START_MARKER_DURATION c"
    by auto
  let ?t3 = "t2 + 3 / 100"
  let ?first = "\<lparr>toneFrequency = START_FREQUENCY c, toneStart = ?t1,
                 toneStop = ?t1 + START_MARKER_DURATION c, toneOscillator = osc1,
                 toneGainNode = gn1, toneParallel = None\<rparr>"
  let ?created = "createNodes c a1 (map toUpperCase message)"
  have "list_all (supported c) (map toUpperCase message)"
    using assms(2) by (simp add: list_all_iff supported_def charToFrequency_toUpperCase)
  then have freqs: "map nodeFrequency (fst ?created) = map (charToFrequency c) message"
    by (simp add: createNodes_frequencies charToFrequency_toUpperCase)
  have a2: "contextState (snd ?created) = Running"
    by (simp add: createNodes_context a1)
  have "scheduleNodes c (resetPauseState c tx) (snd ?created) ?t3 (fst ?created) \<noteq> None"
    using assms(3) by (intro scheduleNodes_not_blocked) simp
  then obtain tx1 a3 t4 middle where
    loop: "scheduleNodes c (resetPauseState c tx) (snd ?created) ?t3 (fst ?created)
             = Some (tx1, a3, t4, middle)"
    by (cases "scheduleNodes c (resetPauseState c tx) (snd ?created) ?t3 (fst ?created)") auto
  note tones = scheduleNodes_tones [OF loop assms(4,5)]
  have a3: "contextState a3 = Running"
    using scheduleNodes_context [OF loop] a2 by simp
  from playTone_marker [of a3 "END_FREQUENCY c" c "END_MARKER_DURATION c" "t4 + 3 / 100"
      "VOLUME c"] a3
  obtain a4 osc4 gn4 where
    final: "playTone c a3 (END_FREQUENCY c) (END_MARKER_DURATION c) (t4 + 3 / 100) (VOLUME c) =
              (t4 + 3 / 100 + END_MARKER_DURATION c, a4,
               [\<lparr>toneFrequency = END_FREQUENCY c, toneStart = t4 + 3 / 100,
                 toneStop = t4 + 3 / 100 + END_MARKER_DURATION c, toneOscillator = osc4,
                 toneGainNode = gn4, toneParallel = None\<rparr>])"
    by auto
  let ?final = "\<lparr>toneFrequency = END_FREQUENCY c, toneStart = t4 + 3 / 100,
                 toneStop = t4 + 3 / 100 + END_MARKER_DURATION c, toneOscillator = osc4,
                 toneGainNode = gn4, toneParallel = None\<rparr>"
  have "\<exists>r. encodeText c tx a message = Some r \<and> schedule r = [?first] @ middle @ [?final]"
    by (simp add: encodeText_def ens start loop final Let_def case_prod_beta)
  then obtain r where r: "encodeText c tx a message = Some r"
    and sched: "schedule r = [?first] @ middle @ [?final]"
    by blast
  have "toneFrequency ?first = START_FREQUENCY c" "toneStart ?first = ?t0 + 3 / 100"
    "toneStop ?first = ?t0 + 3 / 100 + START_MARKER_DURATION c"
    "toneFrequency ?final = END_FREQUENCY c" "toneStart ?final = t4 + 3 / 100"
    "toneStop ?final = t4 + 3 / 100 + END_MARKER_DURATION c"
    by simp_all
  moreover have "map toneFrequency middle = map (charToFrequency c) message"
    using tones freqs by simp
  moreover have "toneParallel ?first = None" "toneParallel ?final = None"
    by simp_all
  moreover have "map (\<lambda>x. map_option fst (toneParallel x)) middle
             = map (\<lambda>ch. if USE_PARALLEL_TONES c
                          then Some (charToFrequency c ch + PARALLEL_TONE_OFFSET c) else None)
                 message"
  proof -
    let ?second = "\<lambda>f. if USE_PARALLEL_TONES c then Some (f + PARALLEL_TONE_OFFSET c) else None"
    have "map (\<lambda>x. map_option fst (toneParallel x)) middle
            = map (\<lambda>n. ?second (nodeFrequency n)) (fst ?created)"
      using loop createNodes_parallel by (rule scheduleNodes_parallel)
    also have "\<dots> = map ?second (map nodeFrequency (fst ?created))"
      by (simp add: comp_def)
    also have "\<dots> = map ?second (map (charToFrequency c) message)"
      by (simp only: freqs)
    finally show ?thesis
      by (simp add: comp_def)
  qed
  moreover have "sorted_wrt (\<lambda>x y. toneStop x + CHARACTER_GAP c \<le> toneStart y) middle"
    using tones by simp
  moreover have "\<forall>x \<in> set middle. toneStop ?first + 3 / 100 \<le> toneStart x
                \<and> toneStop x = toneStart x + CHARACTER_DURATION c
                \<and> toneStop x + CHARACTER_GAP c \<le> t4"
    using tones by (auto simp add: t2)
  moreover have "toneStop ?first + 3 / 100 \<le> t4"
    using tones by (simp add: t2)
  ultimately show ?thesis
    using r sched by blast
qed

lemma codec_durations:
  assumes "c = whale \<or> c = fast"
  shows "0 < CHARACTER_DURATION c" "0 < CHARACTER_GAP c"
    "0 < START_MARKER_DURATION c" "0 < END_MARKER_DURATION c"
    "PAUSE_CONTROL c \<longrightarrow> \<not> isTransmissionPaused (resetPauseState c tx)"
  using assms
  by (auto simp add: whale_encoder_consts fast_encoder_consts resetPauseState_def)

text \<open>
  C6. For a text of supported characters, on a ready audio context, \<^verbatim>\<open>encodeText\<close>
  completes in both modules and schedules one tone for each character of the text between
  two marker tones: the first tone has the start-marker frequency, the last the end-marker
  frequency, and the tones between them the frequencies of the characters in order. Every
  tone stops after it starts, the start times increase strictly, and every tone stops before
  any later tone starts. In the parallel-tone mode, which the fast module switches on, the
  tone of a character has a second oscillator, \<^verbatim>\<open>PARALLEL_TONE_OFFSET\<close> above its
  frequency, that starts and stops with the first; the markers have none.
\<close>

theorem encodeText_schedule:
  assumes "c = whale \<or> c = fast" and "ready a" and "list_all (supported c) message"
  shows "\<exists>r. encodeText c tx a message = Some r
       \<and> length (schedule r) = length message + 2
       \<and> toneFrequency (hd (schedule r)) = START_FREQUENCY c
       \<and> toneFrequency (last (schedule r)) = END_FREQUENCY c
       \<and> map toneFrequency (butlast (tl (schedule r))) = map (charToFrequency c) message
       \<and> map (\<lambda>x. map_option fst (toneParallel x)) (schedule r)
           = [None]
             @ map (\<lambda>ch. if USE_PARALLEL_TONES c
                          then Some (charToFrequency c ch + PARALLEL_TONE_OFFSET c) else None)
                 message
             @ [None]
       \<and> list_all (\<lambda>x. toneStart x < toneStop x) (schedule r)
       \<and> sorted_wrt (\<lambda>x y. toneStart x < toneStart y) (schedule r)
       \<and> sorted_wrt (\<lambda>x y. toneStop x < toneStart y) (schedule r)"
proof -
  note d = codec_durations [OF assms(1)]
  from encodeText_ready [OF assms(2,3) d(5) less_imp_le [OF d(1)] less_imp_le [OF d(2)],
      of tx]
  obtain r first middle final t0 t4 where
    r: "encodeText c tx a message = Some r"
    and sched: "schedule r = [first] @ middle @ [final]"
    and first: "toneFrequency first = START_FREQUENCY c" "toneStart first = t0 + 3 / 100"
      "toneStop first = t0 + 3 / 100 + START_MARKER_DURATION c"
    and freqs: "map toneFrequency middle = map (charToFrequency c) message"
    and markers: "toneParallel first = None" "toneParallel final = None"
    and second: "map (\<lambda>x. map_option fst (toneParallel x)) middle
             = map (\<lambda>ch. if USE_PARALLEL_TONES c
                          then Some (charToFrequency c ch + PARALLEL_TONE_OFFSET c) else None)
                 message"
    and sorted: "sorted_wrt (\<lambda>x y. toneStop x + CHARACTER_GAP c \<le> toneStart y) middle"
    and middle: "\<forall>x \<in> set middle. toneStop first + 3 / 100 \<le> toneStart x
                \<and> toneStop x = toneStart x + CHARACTER_DURATION c
                \<and> toneStop x + CHARACTER_GAP c \<le> t4"
    and t4: "toneStop first + 3 / 100 \<le> t4"
    and final: "toneFrequency final = END_FREQUENCY c" "toneStart final = t4 + 3 / 100"
      "toneStop final = t4 + 3 / 100 + END_MARKER_DURATION c"
    by blast
  have len: "length middle = length message"
    using freqs by (metis length_map)
  have life: "toneStart first < toneStop first" "toneStart final < toneStop final"
    "\<forall>x \<in> set middle. toneStart x < toneStop x"
    using first final middle d(1,3,4) by simp_all
  have gaps: "\<forall>x \<in> set middle. toneStop first < toneStart x"
    "\<forall>x \<in> set middle. toneStop x < toneStart final"
    "toneStop first < toneStart final"
    using middle t4 final(2) d(2) by fastforce+
  have stops: "sorted_wrt (\<lambda>x y. toneStop x < toneStart y) middle"
  proof (rule sorted_wrt_mono_rel [OF _ sorted])
    fix x y :: tone
    assume "toneStop x + CHARACTER_GAP c \<le> toneStart y"
    with d(2) show "toneStop x < toneStart y" by simp
  qed
  have starts: "sorted_wrt (\<lambda>x y. toneStart x < toneStart y) middle"
  proof (rule sorted_wrt_mono_rel [OF _ stops])
    fix x y :: tone
    assume "x \<in> set middle" and "toneStop x < toneStart y"
    with life(3) show "toneStart x < toneStart y" by fastforce
  qed
  have 1: "length (schedule r) = length message + 2"
    by (simp add: sched len)
  have 2: "toneFrequency (hd (schedule r)) = START_FREQUENCY c"
    "toneFrequency (last (schedule r)) = END_FREQUENCY c"
    by (simp_all add: sched first final)
  have 3: "map toneFrequency (butlast (tl (schedule r))) = map (charToFrequency c) message"
    by (simp add: sched freqs butlast_append)
  have 4: "list_all (\<lambda>x. toneStart x < toneStop x) (schedule r)"
    using life by (simp add: sched list_all_iff)
  have 5: "sorted_wrt (\<lambda>x y. toneStop x < toneStart y) (schedule r)"
    using gaps stops by (simp add: sched sorted_wrt_append)
  have 6: "sorted_wrt (\<lambda>x y. toneStart x < toneStart y) (schedule r)"
    using gaps starts life by (fastforce simp add: sched sorted_wrt_append)
  have 7: "map (\<lambda>x. map_option fst (toneParallel x)) (schedule r)
           = [None]
             @ map (\<lambda>ch. if USE_PARALLEL_TONES c
                          then Some (charToFrequency c ch + PARALLEL_TONE_OFFSET c) else None)
                 message
             @ [None]"
    by (simp add: sched markers second)
  from r 1 2 3 4 5 6 7 show ?thesis by blast
qed

lemma toUpperCase_i: "toUpperCase CHR ''i'' = CHR ''I''"
  by code_simp

lemma supported_fast_Hi: "list_all (supported fast) ''Hi''"
proof -
  have "charToFrequency fast CHR ''H'' = 6400" "charToFrequency fast CHR ''I'' = 6500"
    using roundtrip_fast [of "CHR ''H''" 6400] roundtrip_fast [of "CHR ''I''" 6500]
    by (simp_all add: CHAR_FREQUENCIES_fast_def)
  then show ?thesis
    using charToFrequency_toUpperCase [of fast "CHR ''i''"]
    by (simp add: supported_def toUpperCase_i)
qed

theorem encodeText_schedule_witness:
  "(fast = whale \<or> fast = fast) \<and> ready freshContext \<and> list_all (supported fast) ''Hi''
   \<and> (\<exists>r. encodeText fast initialTransmitter freshContext ''Hi'' = Some r
         \<and> length (schedule r) = 4
         \<and> toneFrequency (hd (schedule r)) = 2500
         \<and> toneFrequency (last (schedule r)) = 2700
         \<and> map toneFrequency (butlast (tl (schedule r))) = [6400, 6500]
         \<and> map (\<lambda>x. map_option fst (toneParallel x)) (schedule r)
             = [None, Some 6435, Some 6535, None]
         \<and> sorted_wrt (\<lambda>x y. toneStop x < toneStart y) (schedule r))"
proof -
  have 1: "ready freshContext"
    by (simp add: ready_def freshContext_def)
  have 2: "map (charToFrequency fast) ''Hi'' = [6400, 6500]"
    using roundtrip_fast [of "CHR ''H''" 6400] roundtrip_fast [of "CHR ''I''" 6500]
      charToFrequency_toUpperCase [of fast "CHR ''i''"]
    by (simp add: CHAR_FREQUENCIES_fast_def toUpperCase_i)
  from encodeText_schedule [of fast freshContext "''Hi''" initialTransmitter]
    1 2 supported_fast_Hi
  show ?thesis
    by (auto simp add: fast_consts fast_encoder_consts)
qed

end
